theory Spec2Isabelle
  imports Main "HOL-Library.AList" "HOL-Library.List_Lexorder" "HOL-Library.Char_ord"
begin

section \<open>Data model of boss\_crawl.py\<close>

text \<open>
  Python \<open>str\<close> values that come from outside the program (page text, URLs, error
  messages, timestamps) are sequences of Unicode code points. Selectors and dictionary
  keys are literals of the program and are kept as \<open>string\<close>.
\<close>

type_synonym pystr = "nat list"

definition ustr :: "string \<Rightarrow> pystr" where
  "ustr cs = map of_char cs"

text \<open>
  \<open>str.isspace\<close> for one code point: the table of CPython's
  \<open>_PyUnicode_IsWhitespace\<close>.
\<close>

definition isspace :: "nat \<Rightarrow> bool" where
  "isspace c = ((9 \<le> c \<and> c \<le> 13) \<or> (28 \<le> c \<and> c \<le> 32) \<or> c = 133 \<or> c = 160
      \<or> c = 5760 \<or> (8192 \<le> c \<and> c \<le> 8202) \<or> c = 8232 \<or> c = 8233 \<or> c = 8239
      \<or> c = 8287 \<or> c = 12288)"

text \<open>\<open>str.strip()\<close> without argument: whitespace dropped at both ends.\<close>

definition strip :: "pystr \<Rightarrow> pystr" where
  "strip t = rev (dropWhile isspace (rev (dropWhile isspace t)))"

text \<open>
  An exception is an instance of \<open>Exception\<close>, carrying what \<open>str(e)\<close> gives, or a
  \<open>KeyboardInterrupt\<close>, or another error outside \<open>Exception\<close>
  (\<open>CancelledError\<close>, \<open>SystemExit\<close>). \<open>except Exception\<close> catches only the
  first kind; a bare \<open>except:\<close> catches all three.
\<close>

datatype exn = Error pystr | KeyboardInterrupt | Cancelled

fun str_exn :: "exn \<Rightarrow> pystr" where
  "str_exn (Error msg) = msg"
| "str_exn e = []"

type_synonym element = nat

text \<open>One reading of the clock, in the three renderings the program uses.\<close>

record datetime =
  isoformat :: pystr
  strftime :: pystr
  epoch :: int

text \<open>The values stored in a job record: a string, or the list of tags.\<close>

datatype pyval = Str pystr | Tags "pystr list"

type_synonym job = "(string \<times> pyval) list"

text \<open>
  What is handed to the output file: the list of records for JSON, the header and the
  rows of cells for CSV. The encodings, the quoting of CSV and the rendering of a cell's
  value as text are left out.
\<close>

datatype file_content = JsonFile "job list" | CsvFile "string list" "pyval list list"

text \<open>
  The messages of the program that matter below: the two early returns of \<open>main\<close>
  (lines 203--204, 212), the login timeout (109), the title and the error shown for a record
  (246, 248), the saved file (260, 280), the summary with its two counts (287), and the two
  handlers of the script (297, 299). The informational log lines and the banners are left
  out: they change nothing and nothing depends on them.
\<close>

datatype report =
    ConfigMissing
  | NoJobLinks
  | LoginTimeout
  | ShowTitle pyval
  | ShowError pyval
  | Saved pystr pystr
  | Summary nat nat
  | UserInterrupt
  | RunFailed pystr

text \<open>
  What the program does to its environment, in order, each call with the answer it got.
\<close>

datatype event =
    EvStartPlaywright "exn + unit"
  | EvMakedirs pystr "exn + unit"
  | EvLaunch "exn + bool"
  | EvNewPage "exn + unit"
  | EvGoto pystr "exn + unit"
  | EvSleep nat "exn + unit"
  | EvQuery string "exn + element option"
  | EvQueryAll string "exn + element list"
  | EvText element "exn + pystr option"
  | EvWait string "exn + unit"
  | EvScreenshot int "exn + unit"
  | EvInput "exn + unit"
  | EvWrite pystr pystr file_content "exn + unit"
  | EvCloseBrowser "exn + unit"
  | EvStopPlaywright "exn + unit"
  | EvReport report

text \<open>
  The page driver (Playwright), the operating system and the operator are outside the
  program: every call takes the state of the world and returns an answer, or raises, and
  a new state of the world. \<open>drv_launch\<close> answers whether the persistent context
  already has a page; \<open>drv_screenshot\<close> takes the seconds that name the file
  (\<open>error_screenshot_<secs>.png\<close>); \<open>drv_input\<close> is the operator pressing Enter;
  \<open>drv_write\<close> takes the directory, the file name and the content; \<open>drv_now\<close> reads
  the clock and does not raise.
\<close>

record 'w driver =
  drv_start_playwright :: "'w \<Rightarrow> (exn + unit) \<times> 'w"
  drv_makedirs :: "pystr \<Rightarrow> 'w \<Rightarrow> (exn + unit) \<times> 'w"
  drv_launch :: "'w \<Rightarrow> (exn + bool) \<times> 'w"
  drv_new_page :: "'w \<Rightarrow> (exn + unit) \<times> 'w"
  drv_goto :: "pystr \<Rightarrow> 'w \<Rightarrow> (exn + unit) \<times> 'w"
  drv_sleep :: "nat \<Rightarrow> 'w \<Rightarrow> (exn + unit) \<times> 'w"
  drv_query_selector :: "string \<Rightarrow> 'w \<Rightarrow> (exn + element option) \<times> 'w"
  drv_query_selector_all :: "string \<Rightarrow> 'w \<Rightarrow> (exn + element list) \<times> 'w"
  drv_text_content :: "element \<Rightarrow> 'w \<Rightarrow> (exn + pystr option) \<times> 'w"
  drv_wait_for_selector :: "string \<Rightarrow> 'w \<Rightarrow> (exn + unit) \<times> 'w"
  drv_screenshot :: "int \<Rightarrow> 'w \<Rightarrow> (exn + unit) \<times> 'w"
  drv_input :: "'w \<Rightarrow> (exn + unit) \<times> 'w"
  drv_now :: "'w \<Rightarrow> datetime \<times> 'w"
  drv_write :: "pystr \<Rightarrow> pystr \<Rightarrow> file_content \<Rightarrow> 'w \<Rightarrow> (exn + unit) \<times> 'w"
  drv_close_browser :: "'w \<Rightarrow> (exn + unit) \<times> 'w"
  drv_stop_playwright :: "'w \<Rightarrow> (exn + unit) \<times> 'w"

text \<open>
  The state of a run: the world, the trace of calls made so far, and the two fields of
  \<open>BossJobDetailCrawler\<close> that \<open>close\<close> tests (\<open>self.playwright\<close>,
  \<open>self.browser\<close>: set or \<open>None\<close>).
\<close>

record 'w st =
  world :: 'w
  trace :: "event list"
  playwright :: bool
  browser :: bool

type_synonym ('w, 'a) io = "'w st \<Rightarrow> (exn + 'a) \<times> 'w st"

definition io_return :: "'a \<Rightarrow> ('w, 'a) io" where
  "io_return a s = (Inr a, s)"

definition io_bind :: "('w, 'a) io \<Rightarrow> ('a \<Rightarrow> ('w, 'b) io) \<Rightarrow> ('w, 'b) io" where
  "io_bind m f s = (case m s of (Inl e, s') \<Rightarrow> (Inl e, s') | (Inr a, s') \<Rightarrow> f a s')"

text \<open>\<open>try: m  except: h\<close> (a bare \<open>except\<close> catches everything).\<close>

definition try_except :: "('w, 'a) io \<Rightarrow> (exn \<Rightarrow> ('w, 'a) io) \<Rightarrow> ('w, 'a) io" where
  "try_except m h s = (case m s of (Inl e, s') \<Rightarrow> h e s' | (Inr a, s') \<Rightarrow> (Inr a, s'))"

text \<open>
  \<open>try: m  except Exception as e: h e\<close> (an error outside \<open>Exception\<close> passes
  through).
\<close>

definition try_except_Exception ::
  "('w, 'a) io \<Rightarrow> (exn \<Rightarrow> ('w, 'a) io) \<Rightarrow> ('w, 'a) io" where
  "try_except_Exception m h s =
     (case m s of
        (Inl (Error msg), s') \<Rightarrow> h (Error msg) s'
      | (Inl KeyboardInterrupt, s') \<Rightarrow> (Inl KeyboardInterrupt, s')
      | (Inl Cancelled, s') \<Rightarrow> (Inl Cancelled, s')
      | (Inr a, s') \<Rightarrow> (Inr a, s'))"

text \<open>A call of the driver: the world moves on and the call is appended to the trace.\<close>

definition act ::
  "('w \<Rightarrow> (exn + 'a) \<times> 'w) \<Rightarrow> ((exn + 'a) \<Rightarrow> event) \<Rightarrow> ('w, 'a) io" where
  "act f ev s =
     (case f (world s) of (r, w') \<Rightarrow> (r, s\<lparr>world := w', trace := trace s @ [ev r]\<rparr>))"

definition tell :: "report \<Rightarrow> ('w, unit) io" where
  "tell r s = (Inr (), s\<lparr>trace := trace s @ [EvReport r]\<rparr>)"

definition datetime_now :: "'w driver \<Rightarrow> ('w, datetime) io" where
  "datetime_now d s = (case drv_now d (world s) of (t, w') \<Rightarrow> (Inr t, s\<lparr>world := w'\<rparr>))"

definition page_goto :: "'w driver \<Rightarrow> pystr \<Rightarrow> ('w, unit) io" where
  "page_goto d url = act (drv_goto d url) (EvGoto url)"

definition asyncio_sleep :: "'w driver \<Rightarrow> nat \<Rightarrow> ('w, unit) io" where
  "asyncio_sleep d n = act (drv_sleep d n) (EvSleep n)"

definition page_query_selector :: "'w driver \<Rightarrow> string \<Rightarrow> ('w, element option) io" where
  "page_query_selector d sel = act (drv_query_selector d sel) (EvQuery sel)"

definition page_query_selector_all :: "'w driver \<Rightarrow> string \<Rightarrow> ('w, element list) io" where
  "page_query_selector_all d sel = act (drv_query_selector_all d sel) (EvQueryAll sel)"

definition text_content :: "'w driver \<Rightarrow> element \<Rightarrow> ('w, pystr option) io" where
  "text_content d el = act (drv_text_content d el) (EvText el)"

definition page_wait_for_selector :: "'w driver \<Rightarrow> string \<Rightarrow> ('w, unit) io" where
  "page_wait_for_selector d sel = act (drv_wait_for_selector d sel) (EvWait sel)"

definition page_screenshot :: "'w driver \<Rightarrow> int \<Rightarrow> ('w, unit) io" where
  "page_screenshot d secs = act (drv_screenshot d secs) (EvScreenshot secs)"

definition input_prompt :: "'w driver \<Rightarrow> ('w, unit) io" where
  "input_prompt d = act (drv_input d) EvInput"

section \<open>The field readers\<close>

text \<open>
  \<open>_extract_text\<close> (lines 165--174). An element handle is truthy; a text is truthy
  when it is neither \<open>None\<close> nor empty.
\<close>

definition extract_text :: "'w driver \<Rightarrow> string \<Rightarrow> ('w, pystr) io" where
  "extract_text d selector =
     try_except
       (io_bind (page_query_selector d selector) (\<lambda>element.
          case element of
            Some el \<Rightarrow>
              io_bind (text_content d el) (\<lambda>text.
                io_return (case text of
                             Some t \<Rightarrow> (if t \<noteq> [] then strip t else [])
                           | None \<Rightarrow> []))
          | None \<Rightarrow> io_return []))
       (\<lambda>e. io_return [])"

text \<open>
  \<open>_extract_tags\<close> (lines 176--187). The loop appends to \<open>tags\<close>; when a read
  raises, the bare \<open>except\<close> around the whole loop ends it and the tags gathered so
  far are returned, so the loop hands back the list together with the exception.
\<close>

fun tags_loop ::
  "'w driver \<Rightarrow> element list \<Rightarrow> pystr list \<Rightarrow> 'w st \<Rightarrow> (exn option \<times> pystr list) \<times> 'w st" where
  "tags_loop d [] tags s = ((None, tags), s)"
| "tags_loop d (tag_element # rest) tags s =
     (case text_content d tag_element s of
        (Inl e, s') \<Rightarrow> ((Some e, tags), s')
      | (Inr tag_text, s') \<Rightarrow>
          (case tag_text of
             Some t \<Rightarrow>
               (if t \<noteq> [] \<and> strip t \<noteq> [] then tags_loop d rest (tags @ [strip t]) s'
                else tags_loop d rest tags s')
           | None \<Rightarrow> tags_loop d rest tags s'))"

definition extract_tags :: "'w driver \<Rightarrow> ('w, pystr list) io" where
  "extract_tags d s =
     (case page_query_selector_all d ''.job-tags span'' s of
        (Inl e, s') \<Rightarrow> (Inr [], s')
      | (Inr tag_elements, s') \<Rightarrow>
          (case tags_loop d tag_elements [] s' of ((_, tags), s'') \<Rightarrow> (Inr tags, s'')))"

text \<open>
  The answers the page gives when the texts of the elements are read one after the
  other, in document order.
\<close>

fun tag_reads :: "'w driver \<Rightarrow> element list \<Rightarrow> 'w \<Rightarrow> (exn + pystr option) list" where
  "tag_reads d [] w = []"
| "tag_reads d (el # els) w =
     (case drv_text_content d el w of (r, w') \<Rightarrow> r # tag_reads d els w')"

section \<open>The session\<close>

text \<open>
  \<open>start\<close> (lines 38--63). \<open>self.playwright\<close> and \<open>self.browser\<close> are assigned
  once the call that produces them has returned; a new page is opened only when the
  persistent context has none.
\<close>

text \<open>The profile directory, with the home directory left unexpanded.\<close>

definition user_data_dir :: pystr where
  "user_data_dir = ustr ''~/boss_crawler_data''"

definition os_makedirs :: "'w driver \<Rightarrow> pystr \<Rightarrow> ('w, unit) io" where
  "os_makedirs d dir = act (drv_makedirs d dir) (EvMakedirs dir)"

definition start :: "'w driver \<Rightarrow> ('w, unit) io" where
  "start d =
     io_bind (act (drv_start_playwright d) EvStartPlaywright) (\<lambda>_.
     io_bind (\<lambda>s. (Inr (), s\<lparr>playwright := True\<rparr>)) (\<lambda>_.
     io_bind (os_makedirs d user_data_dir) (\<lambda>_.
     io_bind (act (drv_launch d) EvLaunch) (\<lambda>pages.
     io_bind (\<lambda>s. (Inr (), s\<lparr>browser := True\<rparr>)) (\<lambda>_.
       if pages then io_return () else act (drv_new_page d) EvNewPage)))))"

text \<open>\<open>close\<close> (lines 189--195).\<close>

definition close :: "'w driver \<Rightarrow> ('w, unit) io" where
  "close d =
     io_bind (\<lambda>s. if browser s then act (drv_close_browser d) EvCloseBrowser s
                   else (Inr (), s)) (\<lambda>_.
       (\<lambda>s. if playwright s then act (drv_stop_playwright d) EvStopPlaywright s
            else (Inr (), s)))"

text \<open>\<open>ensure_logged_in\<close> (lines 65--112).\<close>

definition home_url :: pystr where
  "home_url = ustr ''https://www.zhipin.com''"

definition login_indicators :: "string list" where
  "login_indicators =
     [''a[href*='' @ [CHR 0x22] @ ''/web/geek/chat'' @ [CHR 0x22] @ '']'',
      ''.nav-figure img'',
      ''a[ka='' @ [CHR 0x22] @ ''header-username'' @ [CHR 0x22] @ '']'']"

text \<open>
  The loop over the indicators (lines 81--89 and 99--106): the first indicator whose
  query gives an element ends it with \<open>True\<close>; a query that raises counts as no element.
\<close>

fun check_indicators :: "'w driver \<Rightarrow> string list \<Rightarrow> 'w st \<Rightarrow> (exn + bool) \<times> 'w st" where
  "check_indicators d [] s = (Inr False, s)"
| "check_indicators d (indicator # rest) s =
     (case page_query_selector d indicator s of
        (Inl e, s') \<Rightarrow> check_indicators d rest s'
      | (Inr element, s') \<Rightarrow>
          (if element \<noteq> None then (Inr True, s') else check_indicators d rest s'))"

text \<open>\<open>for _ in range(60)\<close> (lines 97--110), counted down.\<close>

fun poll_login :: "'w driver \<Rightarrow> nat \<Rightarrow> 'w st \<Rightarrow> (exn + bool) \<times> 'w st" where
  "poll_login d 0 s = io_bind (tell LoginTimeout) (\<lambda>_. io_return False) s"
| "poll_login d (Suc n) s =
     (case asyncio_sleep d 5 s of
        (Inl e, s') \<Rightarrow> (Inl e, s')
      | (Inr _, s') \<Rightarrow>
          (case check_indicators d login_indicators s' of
             (Inl e, s'') \<Rightarrow> (Inl e, s'')
           | (Inr found, s'') \<Rightarrow> (if found then (Inr True, s'') else poll_login d n s'')))"

definition ensure_logged_in :: "'w driver \<Rightarrow> ('w, bool) io" where
  "ensure_logged_in d =
     io_bind (page_goto d home_url) (\<lambda>_.
     io_bind (asyncio_sleep d 3) (\<lambda>_.
     io_bind (check_indicators d login_indicators) (\<lambda>logged_in.
       if \<not> logged_in then io_bind (input_prompt d) (\<lambda>_. poll_login d 60)
       else io_return True)))"

section \<open>Extraction of one job\<close>

text \<open>
  \<open>extract_job_details\<close> (lines 114--163). The body of the \<open>try\<close> first; the
  dictionary literal evaluates its values from top to bottom, and
  \<open>job_details['tags'] = tags\<close> adds the key at the end.
\<close>

definition extract_body :: "'w driver \<Rightarrow> pystr \<Rightarrow> ('w, job) io" where
  "extract_body d job_url =
     io_bind (page_goto d job_url) (\<lambda>_.
     io_bind (asyncio_sleep d 3) (\<lambda>_.
     io_bind (try_except (page_wait_for_selector d ''.job-banner'') (\<lambda>e. io_return ())) (\<lambda>_.
     io_bind (extract_text d ''.name h1'') (\<lambda>title.
     io_bind (extract_text d ''.salary'') (\<lambda>salary.
     io_bind (extract_text d ''.text-city'') (\<lambda>city.
     io_bind (extract_text d ''.text-experience'') (\<lambda>experience.
     io_bind (extract_text d ''.text-degree'') (\<lambda>education.
     io_bind (extract_text d ''.company-info .name'') (\<lambda>company.
     io_bind (extract_text d ''.company-info .type'') (\<lambda>company_type.
     io_bind (extract_text d ''.company-info .size'') (\<lambda>company_size.
     io_bind (extract_text d ''.job-sec-text'') (\<lambda>job_description.
     io_bind (datetime_now d) (\<lambda>now.
     io_bind (extract_tags d) (\<lambda>tags.
       let job_details =
             [(''url'', Str job_url),
              (''title'', Str title),
              (''salary'', Str salary),
              (''city'', Str city),
              (''experience'', Str experience),
              (''education'', Str education),
              (''company'', Str company),
              (''company_type'', Str company_type),
              (''company_size'', Str company_size),
              (''job_description'', Str job_description),
              (''extracted_at'', Str (isoformat now))]
       in io_return (if tags \<noteq> [] then AList.update ''tags'' (Tags tags) job_details
                     else job_details)))))))))))))))"

text \<open>
  The handler (lines 152--163): the screenshot is named after \<open>int(time.time())\<close>
  and is awaited before the failed record is built.
\<close>

definition extract_handler :: "'w driver \<Rightarrow> pystr \<Rightarrow> exn \<Rightarrow> ('w, job) io" where
  "extract_handler d job_url e =
     io_bind (datetime_now d) (\<lambda>t.
     io_bind (page_screenshot d (epoch t)) (\<lambda>_.
     io_bind (datetime_now d) (\<lambda>now.
       io_return
         [(''url'', Str job_url),
          (''error'', Str (str_exn e)),
          (''extracted_at'', Str (isoformat now))])))"

definition extract_job_details :: "'w driver \<Rightarrow> pystr \<Rightarrow> ('w, job) io" where
  "extract_job_details d job_url =
     try_except_Exception (extract_body d job_url) (extract_handler d job_url)"

section \<open>The run\<close>

text \<open>
  The parsed \<open>job_links.yaml\<close>; a key that is missing is \<open>None\<close> and takes the
  default of the \<open>get\<close> that reads it.
\<close>

record config =
  cfg_job_links :: "pystr list option"
  cfg_output_dir :: "pystr option"
  cfg_output_format :: "string option"

text \<open>\<open>str.lower()\<close> on the format name (ASCII letters).\<close>

definition lower :: "string \<Rightarrow> string" where
  "lower cs =
     map (\<lambda>c. if 65 \<le> (of_char c :: nat) \<and> (of_char c :: nat) \<le> 90
              then char_of ((of_char c :: nat) + 32) else c) cs"

text \<open>
  The extraction loop (lines 237--251): extract, append, show the title and the error
  when the record has them, sleep two seconds.
\<close>

fun crawl_loop :: "'w driver \<Rightarrow> pystr list \<Rightarrow> job list \<Rightarrow> 'w st \<Rightarrow> (exn + job list) \<times> 'w st" where
  "crawl_loop d [] all_job_details s = (Inr all_job_details, s)"
| "crawl_loop d (job_url # rest) all_job_details s =
     (case extract_job_details d job_url s of
        (Inl e, s1) \<Rightarrow> (Inl e, s1)
      | (Inr job_details, s1) \<Rightarrow>
          (case io_bind (case map_of job_details ''title'' of
                           Some v \<Rightarrow> tell (ShowTitle v) | None \<Rightarrow> io_return ()) (\<lambda>_.
                io_bind (case map_of job_details ''error'' of
                           Some v \<Rightarrow> tell (ShowError v) | None \<Rightarrow> io_return ()) (\<lambda>_.
                  asyncio_sleep d 2)) s1 of
             (Inl e, s2) \<Rightarrow> (Inl e, s2)
           | (Inr _, s2) \<Rightarrow> crawl_loop d rest (all_job_details @ [job_details]) s2))"

text \<open>
  The CSV export (lines 262--278). \<open>fieldnames\<close> is a set that takes the keys of
  every record and is then sorted. \<open>DictWriter.writerow\<close> raises \<open>ValueError\<close> on a
  key that is not a field name, and fills a missing field with the empty string.
\<close>

definition fieldnames :: "job list \<Rightarrow> string list" where
  "fieldnames all_job_details =
     sorted_list_of_set (fold (\<lambda>job names. names \<union> set (map fst job)) all_job_details {})"

definition writerow :: "string list \<Rightarrow> job \<Rightarrow> exn + pyval list" where
  "writerow names job =
     (if list_ex (\<lambda>k. k \<notin> set names) (map fst job)
      then Inl (Error (ustr ''dict contains fields not in fieldnames''))
      else Inr (map (\<lambda>k. case map_of job k of Some v \<Rightarrow> v | None \<Rightarrow> Str []) names))"

fun writerows :: "string list \<Rightarrow> job list \<Rightarrow> exn + pyval list list" where
  "writerows names [] = Inr []"
| "writerows names (job # rest) =
     (case writerow names job of
        Inl e \<Rightarrow> Inl e
      | Inr row \<Rightarrow> (case writerows names rest of Inl e \<Rightarrow> Inl e | Inr rows \<Rightarrow> Inr (row # rows)))"

definition csv_export :: "job list \<Rightarrow> exn + file_content" where
  "csv_export all_job_details =
     (case writerows (fieldnames all_job_details) all_job_details of
        Inl e \<Rightarrow> Inl e
      | Inr rows \<Rightarrow> Inr (CsvFile (fieldnames all_job_details) rows))"

definition write_file :: "'w driver \<Rightarrow> pystr \<Rightarrow> pystr \<Rightarrow> file_content \<Rightarrow> ('w, unit) io" where
  "write_file d dir name content = act (drv_write d dir name content) (EvWrite dir name content)"

text \<open>Saving (lines 253--280): any other format name writes nothing.\<close>

definition save_results ::
  "'w driver \<Rightarrow> pystr \<Rightarrow> string \<Rightarrow> pystr \<Rightarrow> job list \<Rightarrow> ('w, unit) io" where
  "save_results d output_dir output_format timestamp all_job_details =
     (if output_format = ''json'' then
        io_bind (write_file d output_dir (ustr ''job_details_'' @ timestamp @ ustr ''.json'')
                   (JsonFile all_job_details)) (\<lambda>_.
          tell (Saved output_dir (ustr ''job_details_'' @ timestamp @ ustr ''.json'')))
      else if output_format = ''csv'' then
        (case csv_export all_job_details of
           Inl e \<Rightarrow> (\<lambda>s. (Inl e, s))
         | Inr content \<Rightarrow>
             io_bind (write_file d output_dir (ustr ''job_details_'' @ timestamp @ ustr ''.csv'')
                        content) (\<lambda>_.
               tell (Saved output_dir (ustr ''job_details_'' @ timestamp @ ustr ''.csv''))))
      else io_return ())"

text \<open>
  \<open>main\<close> (lines 198--290). Its input is the parsed configuration file, \<open>None\<close> when
  the file does not exist. The crawler is created inside, so a run begins with an empty
  trace and both crawler fields unset.
\<close>

definition init :: "'w \<Rightarrow> 'w st" where
  "init w = \<lparr>world = w, trace = [], playwright = False, browser = False\<rparr>"

definition main_from :: "config option \<Rightarrow> 'w driver \<Rightarrow> ('w, unit) io" where
  "main_from config_file d =
     (case config_file of
        None \<Rightarrow> tell ConfigMissing
      | Some config \<Rightarrow>
          (let job_links = (case cfg_job_links config of Some l \<Rightarrow> l | None \<Rightarrow> []) in
           if job_links = [] then tell NoJobLinks
           else
             (let output_dir = (case cfg_output_dir config of
                                  Some dir \<Rightarrow> dir | None \<Rightarrow> ustr ''./job_details'');
                  output_format = lower (case cfg_output_format config of
                                           Some f \<Rightarrow> f | None \<Rightarrow> ''json'')
              in
              io_bind (os_makedirs d output_dir) (\<lambda>_.
              io_bind (start d) (\<lambda>_.
              io_bind (ensure_logged_in d) (\<lambda>logged_in.
                if \<not> logged_in then close d
                else
                  io_bind (crawl_loop d job_links []) (\<lambda>all_job_details.
                  io_bind (datetime_now d) (\<lambda>now.
                  io_bind (save_results d output_dir output_format (strftime now)
                             all_job_details) (\<lambda>_.
                  io_bind (tell (Summary
                             (length (filter (\<lambda>job. map_of job ''error'' = None) all_job_details))
                             (length all_job_details
                                - length (filter (\<lambda>job. map_of job ''error'' = None)
                                            all_job_details)))) (\<lambda>_.
                    close d))))))))))"

definition main :: "config option \<Rightarrow> 'w driver \<Rightarrow> 'w \<Rightarrow> (exn + unit) \<times> 'w st" where
  "main config_file d w = main_from config_file d (init w)"

text \<open>
  The script entry (lines 293--299): a \<open>KeyboardInterrupt\<close> and any \<open>Exception\<close>
  that leave \<open>main\<close> are reported; any other error leaves the script as it came.
\<close>

definition script :: "config option \<Rightarrow> 'w driver \<Rightarrow> 'w \<Rightarrow> (exn + unit) \<times> 'w st" where
  "script config_file d w =
     (case main_from config_file d (init w) of
        (Inl KeyboardInterrupt, s') \<Rightarrow> tell UserInterrupt s'
      | (Inl (Error msg), s') \<Rightarrow> tell (RunFailed msg) s'
      | (Inl Cancelled, s') \<Rightarrow> (Inl Cancelled, s')
      | (Inr u, s') \<Rightarrow> (Inr u, s'))"

section \<open>Sample environments\<close>

text \<open>
  Concrete drivers on which the theorems below are instantiated. In all of them the
  world has a single state and the clock stands still.
\<close>

definition sample_now :: datetime where
  "sample_now =
     \<lparr>isoformat = ustr ''2024-05-01T10:00:00'', strftime = ustr ''20240501_100000'',
      epoch = 1714557600\<rparr>"

text \<open>Every call succeeds; the page has no element at all.\<close>

definition blank_driver :: "unit driver" where
  "blank_driver =
     \<lparr>drv_start_playwright = (\<lambda>w. (Inr (), w)),
      drv_makedirs = (\<lambda>dir w. (Inr (), w)),
      drv_launch = (\<lambda>w. (Inr True, w)),
      drv_new_page = (\<lambda>w. (Inr (), w)),
      drv_goto = (\<lambda>url w. (Inr (), w)),
      drv_sleep = (\<lambda>n w. (Inr (), w)),
      drv_query_selector = (\<lambda>sel w. (Inr None, w)),
      drv_query_selector_all = (\<lambda>sel w. (Inr [], w)),
      drv_text_content = (\<lambda>el w. (Inr None, w)),
      drv_wait_for_selector = (\<lambda>sel w. (Inr (), w)),
      drv_screenshot = (\<lambda>secs w. (Inr (), w)),
      drv_input = (\<lambda>w. (Inr (), w)),
      drv_now = (\<lambda>w. (sample_now, w)),
      drv_write = (\<lambda>dir name content w. (Inr (), w)),
      drv_close_browser = (\<lambda>w. (Inr (), w)),
      drv_stop_playwright = (\<lambda>w. (Inr (), w))\<rparr>"

text \<open>
  A logged-in session on a job page: every selector finds element 1, whose text is
  padded with blanks, and the page has five tag elements, one of them empty, one blank,
  one without text and two with the same text.
\<close>

definition sample_text :: "element \<Rightarrow> pystr option" where
  "sample_text el =
     (if el = 1 then Some (ustr '' Engineer '')
      else if el = 10 then Some (12288 # ustr ''Python '')
      else if el = 11 then Some []
      else if el = 12 then Some (ustr ''   '')
      else if el = 13 then None
      else Some (ustr ''Python''))"

definition job_driver :: "unit driver" where
  "job_driver =
     blank_driver
       \<lparr>drv_query_selector := (\<lambda>sel w. (Inr (Some 1), w)),
        drv_query_selector_all := (\<lambda>sel w. (Inr [10, 11, 12, 13, 14], w)),
        drv_text_content := (\<lambda>el w. (Inr (sample_text el), w))\<rparr>"

text \<open>
  The same session when the job pages cannot be loaded: every navigation but the one to
  the home page raises.
\<close>

definition offline_driver :: "unit driver" where
  "offline_driver =
     job_driver
       \<lparr>drv_goto := (\<lambda>url w. if url = home_url then (Inr (), w)
                                else (Inl (Error (ustr ''navigation failed'')), w))\<rparr>"

text \<open>
  The same once the browser window has been closed: the screenshot raises as well.
\<close>

definition closed_driver :: "unit driver" where
  "closed_driver =
     offline_driver
       \<lparr>drv_screenshot := (\<lambda>secs w. (Inl (Error (ustr ''screenshot failed'')), w))\<rparr>"

text \<open>
  The same as \<open>offline_driver\<close>, with an error that carries no message (as
  \<open>Exception()\<close> does).
\<close>

definition silent_driver :: "unit driver" where
  "silent_driver =
     job_driver
       \<lparr>drv_goto := (\<lambda>url w. if url = home_url then (Inr (), w) else (Inl (Error []), w))\<rparr>"

definition sample_url :: pystr where
  "sample_url = ustr ''https://www.zhipin.com/job_detail/1.html''"

text \<open>The records these sessions give for \<open>sample_url\<close>.\<close>

definition sample_job :: job where
  "sample_job =
     [(''url'', Str sample_url), (''title'', Str (ustr ''Engineer'')),
      (''salary'', Str (ustr ''Engineer'')), (''city'', Str (ustr ''Engineer'')),
      (''experience'', Str (ustr ''Engineer'')), (''education'', Str (ustr ''Engineer'')),
      (''company'', Str (ustr ''Engineer'')), (''company_type'', Str (ustr ''Engineer'')),
      (''company_size'', Str (ustr ''Engineer'')), (''job_description'', Str (ustr ''Engineer'')),
      (''extracted_at'', Str (ustr ''2024-05-01T10:00:00'')),
      (''tags'', Tags [ustr ''Python'', ustr ''Python''])]"

definition blank_job :: job where
  "blank_job =
     [(''url'', Str sample_url), (''title'', Str []), (''salary'', Str []), (''city'', Str []),
      (''experience'', Str []), (''education'', Str []), (''company'', Str []),
      (''company_type'', Str []), (''company_size'', Str []), (''job_description'', Str []),
      (''extracted_at'', Str (ustr ''2024-05-01T10:00:00''))]"

definition silent_job :: job where
  "silent_job =
     [(''url'', Str sample_url), (''error'', Str []),
      (''extracted_at'', Str (ustr ''2024-05-01T10:00:00''))]"

definition failed_job :: job where
  "failed_job =
     [(''url'', Str sample_url), (''error'', Str (ustr ''navigation failed'')),
      (''extracted_at'', Str (ustr ''2024-05-01T10:00:00''))]"

text \<open>
  A login that succeeds while the program polls: the world counts the sleeps, and the
  indicators appear after the third one.
\<close>

definition late_driver :: "nat driver" where
  "late_driver =
     \<lparr>drv_start_playwright = (\<lambda>w. (Inr (), w)),
      drv_makedirs = (\<lambda>dir w. (Inr (), w)),
      drv_launch = (\<lambda>w. (Inr True, w)),
      drv_new_page = (\<lambda>w. (Inr (), w)),
      drv_goto = (\<lambda>url w. (Inr (), w)),
      drv_sleep = (\<lambda>n w. (Inr (), Suc w)),
      drv_query_selector = (\<lambda>sel w. (if 3 \<le> w then Inr (Some 1) else Inr None, w)),
      drv_query_selector_all = (\<lambda>sel w. (Inr [], w)),
      drv_text_content = (\<lambda>el w. (Inr None, w)),
      drv_wait_for_selector = (\<lambda>sel w. (Inr (), w)),
      drv_screenshot = (\<lambda>secs w. (Inr (), w)),
      drv_input = (\<lambda>w. (Inr (), w)),
      drv_now = (\<lambda>w. (sample_now, w)),
      drv_write = (\<lambda>dir name content w. (Inr (), w)),
      drv_close_browser = (\<lambda>w. (Inr (), w)),
      drv_stop_playwright = (\<lambda>w. (Inr (), w))\<rparr>"

text \<open>A logged-in session whose disk is full: writing the output file raises.\<close>

definition full_disk_driver :: "unit driver" where
  "full_disk_driver =
     job_driver
       \<lparr>drv_write := (\<lambda>dir name content w. (Inl (Error (ustr ''No space left on device'')), w))\<rparr>"

text \<open>The sample configuration with the format \<open>CSV\<close>.\<close>

definition csv_config :: config where
  "csv_config =
     \<lparr>cfg_job_links = Some [sample_url], cfg_output_dir = None,
      cfg_output_format = Some ''CSV''\<rparr>"

text \<open>A site that cannot be reached: every navigation raises.\<close>

definition unreachable_driver :: "unit driver" where
  "unreachable_driver =
     blank_driver
       \<lparr>drv_goto := (\<lambda>url w. (Inl (Error (ustr ''net::ERR_NAME_NOT_RESOLVED'')), w))\<rparr>"

definition sample_config :: config where
  "sample_config =
     \<lparr>cfg_job_links = Some [sample_url], cfg_output_dir = None, cfg_output_format = None\<rparr>"

section \<open>Observations on traces\<close>

text \<open>A query for a login indicator that found an element.\<close>

fun indicator_seen :: "event \<Rightarrow> bool" where
  "indicator_seen (EvQuery sel (Inr (Some el))) = (sel \<in> set login_indicators)"
| "indicator_seen ev = False"

text \<open>
  The calls \<open>ensure_logged_in\<close> makes: the navigation to the home page, the sleeps,
  the queries for the login indicators, the prompt and the report of the timeout.
\<close>

fun login_event :: "event \<Rightarrow> bool" where
  "login_event (EvGoto url r) = (url = home_url)"
| "login_event (EvSleep n r) = True"
| "login_event (EvQuery sel r) = (sel \<in> set login_indicators)"
| "login_event (EvInput r) = True"
| "login_event (EvReport r) = (r = LoginTimeout)"
| "login_event ev = False"

text \<open>A call made by \<open>close\<close>.\<close>

fun is_close :: "event \<Rightarrow> bool" where
  "is_close (EvCloseBrowser r) = True"
| "is_close (EvStopPlaywright r) = True"
| "is_close ev = False"

abbreviation quiet :: "event \<Rightarrow> bool" where
  "quiet ev \<equiv> \<not> is_close ev"

text \<open>
  A computation that only appends events satisfying \<open>P\<close> to the trace and leaves the
  two crawler fields as they are.
\<close>

definition only_adds :: "(event \<Rightarrow> bool) \<Rightarrow> ('w, 'a) io \<Rightarrow> bool" where
  "only_adds P m =
     (\<forall>s r s'. m s = (r, s') \<longrightarrow>
        (\<exists>evs. trace s' = trace s @ evs \<and> list_all P evs) \<and>
        playwright s' = playwright s \<and> browser s' = browser s)"

text \<open>
  A computation that, begun with both crawler fields set, either raises before any call
  of \<open>close\<close> or ends with \<open>close\<close>, having made no such call before.
\<close>

definition closes_last :: "'w driver \<Rightarrow> ('w, unit) io \<Rightarrow> bool" where
  "closes_last d m =
     (\<forall>s r s'. browser s \<and> playwright s \<and> m s = (r, s') \<longrightarrow>
        ((\<exists>e. r = Inl e) \<and> (\<exists>evs. trace s' = trace s @ evs \<and> list_all quiet evs)) \<or>
        (\<exists>s2 evs. trace s2 = trace s @ evs \<and> list_all quiet evs \<and> browser s2 \<and>
           playwright s2 \<and> close d s2 = (r, s')))"

section \<open>Properties of the field readers\<close>

lemma strip_Nil: "strip [] = []"
  by (simp add: strip_def)

lemma last_dropWhile_keep:
  "xs \<noteq> [] \<Longrightarrow> \<not> P (last xs) \<Longrightarrow> dropWhile P xs \<noteq> [] \<and> last (dropWhile P xs) = last xs"
  by (induction xs) (auto split: if_splits)

lemma strip_ends: "strip t = [] \<or> (\<not> isspace (hd (strip t)) \<and> \<not> isspace (last (strip t)))"
proof (cases "dropWhile isspace t = []")
  case True
  show ?thesis unfolding strip_def True by simp
next
  case False
  let ?u = "dropWhile isspace t"
  let ?v = "dropWhile isspace (rev ?u)"
  have hu: "\<not> isspace (hd ?u)" using False by (rule hd_dropWhile)
  have ru: "rev ?u \<noteq> []" using False by simp
  have lu: "\<not> isspace (last (rev ?u))" using hu False by (simp add: last_rev)
  have v: "?v \<noteq> []" and lv: "last ?v = last (rev ?u)"
    using last_dropWhile_keep [of "rev ?u" isspace] ru lu by simp_all
  have hv: "\<not> isspace (hd ?v)" using v by (rule hd_dropWhile)
  have "last (strip t) = hd ?v" using v by (simp add: strip_def last_rev)
  moreover have "hd (strip t) = hd ?u" using v lv False by (simp add: strip_def hd_rev last_rev)
  ultimately show ?thesis using hu hv by simp
qed

text \<open>
  C7. \<open>_extract_text\<close> is total: for every selector and every behaviour of the driver
  it returns a string and never raises. The string is empty when the query raises or
  finds no element and when reading the text raises or gives no text; otherwise it is
  the text stripped, which has no whitespace at either end.
\<close>

theorem extract_text_total:
  "\<exists>v s'. extract_text d selector s = (Inr v, s') \<and>
     v = (case fst (drv_query_selector d selector (world s)) of
            Inr (Some el) \<Rightarrow>
              (case fst (drv_text_content d el (snd (drv_query_selector d selector (world s)))) of
                 Inr (Some t) \<Rightarrow> strip t
               | _ \<Rightarrow> [])
          | _ \<Rightarrow> []) \<and>
     (v = [] \<or> (\<not> isspace (hd v) \<and> \<not> isspace (last v)))"
  using strip_ends
  by (auto simp: extract_text_def try_except_def io_bind_def io_return_def page_query_selector_def
      text_content_def act_def strip_Nil split: prod.splits sum.splits option.splits)

lemma sample_texts:
  "map sample_text [10, 11, 12, 13, 14] =
     [Some (12288 # ustr ''Python ''), Some [], Some (ustr ''   ''), None, Some (ustr ''Python'')]"
  by (simp add: sample_text_def)

lemma sample_strips:
  "strip (12288 # ustr ''Python '') = ustr ''Python''" "strip (ustr ''   '') = []"
  "strip (ustr ''Python'') = ustr ''Python''" "strip (ustr '' Engineer '') = ustr ''Engineer''"
  by (simp_all add: strip_def isspace_def ustr_def)

theorem extract_text_total_witness:
  "fst (extract_text job_driver ''.name h1'' (init ())) = Inr (ustr ''Engineer'') \<and>
   fst (extract_text blank_driver ''.name h1'' (init ())) = Inr []"
  using extract_text_total [of job_driver "''.name h1''" "init ()"]
    extract_text_total [of blank_driver "''.name h1''" "init ()"]
  by (auto simp: job_driver_def blank_driver_def sample_text_def init_def sample_strips)

lemma tags_loop_reads:
  "tag_reads d els (world s) = map Inr txts \<Longrightarrow>
   fst (tags_loop d els tags s) =
     (None, tags @ map strip (filter (\<lambda>t. strip t \<noteq> []) [t. Some t \<leftarrow> txts]))"
proof (induction els arbitrary: tags s txts)
  case Nil
  then show ?case by simp
next
  case (Cons el els)
  obtain r w' where r: "drv_text_content d el (world s) = (r, w')"
    by (cases "drv_text_content d el (world s)")
  with Cons.prems obtain x rest where txts: "txts = x # rest" and rx: "r = Inr x"
    and rest: "tag_reads d els w' = map Inr rest"
    by (cases txts) auto
  let ?s' = "s\<lparr>world := w', trace := trace s @ [EvText el (Inr x)]\<rparr>"
  have step: "text_content d el s = (Inr x, ?s')" by (simp add: text_content_def act_def r rx)
  have w: "tag_reads d els (world ?s') = map Inr rest" using rest by simp
  note ih = Cons.IH [OF w]
  show ?case
  proof (cases x)
    case None
    then show ?thesis using ih [of tags] by (simp add: step txts)
  next
    case (Some a)
    show ?thesis
    proof (cases "strip a = []")
      case True
      then show ?thesis using ih [of tags] Some by (simp add: step txts)
    next
      case False
      then have "a \<noteq> []" using strip_Nil by auto
      then show ?thesis using ih [of "tags @ [strip a]"] Some False by (simp add: step txts)
    qed
  qed
qed

text \<open>
  When a read raises, the loop ends there: the tags are those of the reads before it.
\<close>

lemma tags_loop_prefix:
  "snd (fst (tags_loop d els tags s)) =
     tags @ map strip (filter (\<lambda>t. strip t \<noteq> [])
       [t. Inr (Some t) \<leftarrow> takeWhile (\<lambda>r. \<not> isl r) (tag_reads d els (world s))])"
proof (induction els arbitrary: tags s)
  case Nil
  then show ?case by simp
next
  case (Cons el els)
  obtain r w' where r: "drv_text_content d el (world s) = (r, w')"
    by (cases "drv_text_content d el (world s)")
  let ?s' = "s\<lparr>world := w', trace := trace s @ [EvText el r]\<rparr>"
  have step: "text_content d el s = (r, ?s')" by (simp add: text_content_def act_def r)
  have w: "world ?s' = w'" by simp
  note ih = Cons.IH [of _ ?s', unfolded w]
  show ?case
  proof (cases r)
    case (Inl e)
    then show ?thesis by (simp add: step r)
  next
    case (Inr x)
    show ?thesis
    proof (cases x)
      case None
      then show ?thesis using ih [of tags] Inr by (simp add: step r)
    next
      case (Some a)
      show ?thesis
      proof (cases "strip a = []")
        case True
        then show ?thesis using ih [of tags] Some Inr by (simp add: step r)
      next
        case False
        then have "a \<noteq> []" using strip_Nil by auto
        then show ?thesis using ih [of "tags @ [strip a]"] Some Inr False by (simp add: step r)
      qed
    qed
  qed
qed

text \<open>
  C8. When the query for \<open>.job-tags span\<close> gives the elements \<open>els\<close> and reading their
  texts one after the other gives \<open>txts\<close> (a text, or none), \<open>_extract_tags\<close> returns
  the stripped texts that are not empty after stripping, in the order of the elements,
  every occurrence kept. No tag is empty or begins or ends with whitespace.
\<close>

theorem extract_tags_spec:
  assumes q: "drv_query_selector_all d ''.job-tags span'' (world s) = (Inr els, w1)"
      and t: "tag_reads d els w1 = map Inr txts"
  shows "\<exists>tags s'. extract_tags d s = (Inr tags, s') \<and>
           tags = map strip (filter (\<lambda>t. strip t \<noteq> []) [t. Some t \<leftarrow> txts]) \<and>
           (\<forall>tag\<in>set tags. tag \<noteq> [] \<and> \<not> isspace (hd tag) \<and> \<not> isspace (last tag))"
proof -
  let ?s1 = "s\<lparr>world := w1, trace := trace s @ [EvQueryAll ''.job-tags span'' (Inr els)]\<rparr>"
  have step: "page_query_selector_all d ''.job-tags span'' s = (Inr els, ?s1)"
    by (simp add: page_query_selector_all_def act_def q)
  have "tag_reads d els (world ?s1) = map Inr txts" using t by simp
  from tags_loop_reads [OF this, of "[]"]
  have loop: "fst (tags_loop d els [] ?s1) =
     (None, map strip (filter (\<lambda>t. strip t \<noteq> []) [t. Some t \<leftarrow> txts]))" by simp
  have res: "extract_tags d s =
     (Inr (map strip (filter (\<lambda>t. strip t \<noteq> []) [t. Some t \<leftarrow> txts])),
      snd (tags_loop d els [] ?s1))"
    unfolding extract_tags_def step using loop by (cases "tags_loop d els [] ?s1") auto
  have "\<forall>tag\<in>set (map strip (filter (\<lambda>t. strip t \<noteq> []) [t. Some t \<leftarrow> txts])).
          tag \<noteq> [] \<and> \<not> isspace (hd tag) \<and> \<not> isspace (last tag)"
    using strip_ends by auto
  with res show ?thesis by blast
qed


theorem extract_tags_spec_witness:
  "drv_query_selector_all job_driver ''.job-tags span'' (world (init ())) =
     (Inr [10, 11, 12, 13, 14], ()) \<and>
   tag_reads job_driver [10, 11, 12, 13, 14] () = map Inr (map sample_text [10, 11, 12, 13, 14]) \<and>
   fst (extract_tags job_driver (init ())) = Inr [ustr ''Python'', ustr ''Python'']"
proof -
  have q: "drv_query_selector_all job_driver ''.job-tags span'' (world (init ())) =
     (Inr [10, 11, 12, 13, 14], ())"
    by (simp add: job_driver_def)
  have t: "tag_reads job_driver [10, 11, 12, 13, 14] () =
     map Inr (map sample_text [10, 11, 12, 13, 14])"
    by (simp add: job_driver_def)
  have ne: "ustr ''Python'' \<noteq> []" by (simp add: ustr_def)
  have "map strip (filter (\<lambda>t. strip t \<noteq> []) [t. Some t \<leftarrow> map sample_text [10, 11, 12, 13, 14]]) =
     [ustr ''Python'', ustr ''Python'']"
    unfolding sample_texts by (simp add: sample_strips strip_Nil ne)
  note r = this
  from extract_tags_spec [OF q t] obtain tags s' where
    e: "extract_tags job_driver (init ()) = (Inr tags, s')"
    and tg: "tags = map strip (filter (\<lambda>t. strip t \<noteq> []) [t. Some t \<leftarrow> map sample_text [10, 11, 12, 13, 14]])"
    by blast
  have "fst (extract_tags job_driver (init ())) = Inr [ustr ''Python'', ustr ''Python'']"
    unfolding e tg r by simp
  with q t show ?thesis by blast
qed

section \<open>Properties of one extraction\<close>

lemma io_bind_InrE:
  assumes "io_bind m f s = (Inr b, s')"
  obtains a s1 where "m s = (Inr a, s1)" and "f a s1 = (Inr b, s')"
  using assms by (auto simp: io_bind_def split: prod.splits sum.splits)

lemma io_return_eq: "io_return a s = (r, s') \<longleftrightarrow> r = Inr a \<and> s' = s"
  by (auto simp: io_return_def)

lemma try_except_Exception_InrE:
  assumes "try_except_Exception m h s = (Inr b, s')"
  obtains "m s = (Inr b, s')"
  | msg s1 where "m s = (Inl (Error msg), s1)" and "h (Error msg) s1 = (Inr b, s')"
  using assms by (auto simp: try_except_Exception_def split: prod.splits sum.splits exn.splits)

lemma extract_text_returns: "\<exists>v s'. extract_text d selector s = (Inr v, s')"
  by (auto simp: extract_text_def try_except_def io_bind_def io_return_def
      split: prod.splits sum.splits option.splits)

lemma extract_tags_returns: "\<exists>tags s'. extract_tags d s = (Inr tags, s')"
  by (auto simp: extract_tags_def split: prod.splits sum.splits)

lemma extract_body_record:
  assumes "extract_body d job_url s = (Inr job, s')"
  shows "\<exists>tags st. extract_tags d st = (Inr tags, s') \<and>
           map_of job ''tags'' = (if tags = [] then None else Some (Tags tags))"
    and "map_of job ''error'' = None"
    and "map_of job ''url'' = Some (Str job_url)"
    and "\<exists>ts. map_of job ''extracted_at'' = Some (Str ts)"
    and "\<forall>(k, selector)\<in>set [(''title'', ''.name h1''), (''salary'', ''.salary''),
             (''city'', ''.text-city''), (''experience'', ''.text-experience''),
             (''education'', ''.text-degree''), (''company'', ''.company-info .name''),
             (''company_type'', ''.company-info .type''),
             (''company_size'', ''.company-info .size''),
             (''job_description'', ''.job-sec-text'')].
           \<exists>v st st'. extract_text d selector st = (Inr v, st') \<and> map_of job k = Some (Str v)"
  using assms unfolding extract_body_def
  by (elim io_bind_InrE; auto simp: io_return_eq Let_def split: if_splits)+

lemma extract_handler_record:
  assumes "extract_handler d job_url e s = (Inr job, s')"
  shows "\<exists>ts. job = [(''url'', Str job_url), (''error'', Str (str_exn e)), (''extracted_at'', Str ts)]"
  using assms unfolding extract_handler_def
  by (elim io_bind_InrE) (auto simp: io_return_eq)

lemma job_driver_text:
  "fst (extract_text job_driver selector s) = Inr (ustr ''Engineer'')"
  by (simp add: extract_text_def try_except_def io_bind_def io_return_def page_query_selector_def
      text_content_def act_def job_driver_def blank_driver_def sample_text_def sample_strips)
    (simp add: ustr_def)

lemma extract_tags_from_loop:
  "page_query_selector_all d ''.job-tags span'' s = (Inr els, s1) \<Longrightarrow>
   fst (tags_loop d els [] s1) = (x, tags) \<Longrightarrow> fst (extract_tags d s) = Inr tags"
  by (cases "tags_loop d els [] s1") (auto simp: extract_tags_def)

lemma job_driver_tags:
  "fst (extract_tags job_driver s) = Inr [ustr ''Python'', ustr ''Python'']"
proof -
  have ne: "ustr ''Python'' \<noteq> []" by (simp add: ustr_def)
  have tc: "\<And>el s. text_content job_driver el s =
      (Inr (sample_text el), s\<lparr>world := (), trace := trace s @ [EvText el (Inr (sample_text el))]\<rparr>)"
    by (simp add: text_content_def act_def job_driver_def blank_driver_def)
  have st: "sample_text 10 = Some (12288 # ustr ''Python '')" "sample_text 11 = Some []"
    "sample_text 12 = Some (ustr ''   '')" "sample_text 13 = None"
    "sample_text 14 = Some (ustr ''Python'')"
    by (simp_all add: sample_text_def)
  have loop: "\<And>s. fst (tags_loop job_driver [10, 11, 12, 13, 14] [] s) =
      (None, [ustr ''Python'', ustr ''Python''])"
    by (simp add: tc st sample_strips ne)
  have q: "page_query_selector_all job_driver ''.job-tags span'' s =
      (Inr [10, 11, 12, 13, 14],
       s\<lparr>world := (), trace := trace s @ [EvQueryAll ''.job-tags span'' (Inr [10, 11, 12, 13, 14])]\<rparr>)"
    by (simp add: page_query_selector_all_def act_def job_driver_def blank_driver_def)
  show ?thesis by (rule extract_tags_from_loop [OF q loop])
qed


lemma fst_io_bind:
  "fst (m s) = Inr a \<Longrightarrow> fst (io_bind m f s) = fst (f a (snd (m s)))"
  by (cases "m s") (auto simp: io_bind_def)


lemma job_driver_body:
  "fst (extract_body job_driver sample_url s) = Inr sample_job"
proof -
  have ne: "ustr ''Python'' \<noteq> []" by (simp add: ustr_def)
  have g: "\<And>s. fst (page_goto job_driver sample_url s) = Inr ()"
    by (simp add: page_goto_def act_def job_driver_def blank_driver_def)
  have sl: "\<And>s. fst (asyncio_sleep job_driver 3 s) = Inr ()"
    by (simp add: asyncio_sleep_def act_def job_driver_def blank_driver_def)
  have wt: "\<And>s. fst (try_except (page_wait_for_selector job_driver ''.job-banner'')
                (\<lambda>e. io_return ()) s) = Inr ()"
    by (simp add: try_except_def page_wait_for_selector_def act_def job_driver_def
        blank_driver_def)
  have nw: "\<And>s. fst (datetime_now job_driver s) = Inr sample_now"
    by (simp add: datetime_now_def job_driver_def blank_driver_def)
  show ?thesis
    unfolding extract_body_def
    by (simp add: fst_io_bind g sl wt nw job_driver_text job_driver_tags io_return_def
        sample_job_def sample_now_def ne)
qed

lemma blank_driver_text:
  "fst (extract_text blank_driver selector s) = Inr []"
  by (simp add: extract_text_def try_except_def io_bind_def io_return_def page_query_selector_def
      act_def blank_driver_def)

lemma blank_driver_tags:
  "fst (extract_tags blank_driver s) = Inr []"
  by (simp add: extract_tags_def page_query_selector_all_def act_def blank_driver_def)

lemma blank_driver_body:
  "fst (extract_body blank_driver sample_url s) = Inr blank_job"
proof -
  have g: "\<And>s. fst (page_goto blank_driver sample_url s) = Inr ()"
    by (simp add: page_goto_def act_def blank_driver_def)
  have sl: "\<And>s. fst (asyncio_sleep blank_driver 3 s) = Inr ()"
    by (simp add: asyncio_sleep_def act_def blank_driver_def)
  have wt: "\<And>s. fst (try_except (page_wait_for_selector blank_driver ''.job-banner'')
                (\<lambda>e. io_return ()) s) = Inr ()"
    by (simp add: try_except_def page_wait_for_selector_def act_def blank_driver_def)
  have nw: "\<And>s. fst (datetime_now blank_driver s) = Inr sample_now"
    by (simp add: datetime_now_def blank_driver_def)
  show ?thesis
    unfolding extract_body_def
    by (simp add: fst_io_bind g sl wt nw blank_driver_text blank_driver_tags io_return_def
        blank_job_def sample_now_def)
qed

lemma fst_try_except_Exception_Inr:
  "fst (m s) = Inr a \<Longrightarrow> fst (try_except_Exception m h s) = Inr a"
  by (cases "m s") (auto simp: try_except_Exception_def)

lemma offline_driver_body:
  "\<exists>s1. extract_body offline_driver sample_url s = (Inl (Error (ustr ''navigation failed'')), s1)"
  by (simp add: extract_body_def io_bind_def page_goto_def act_def offline_driver_def
      job_driver_def blank_driver_def sample_url_def home_url_def ustr_def)

lemma offline_driver_handler:
  "fst (extract_handler offline_driver sample_url (Error (ustr ''navigation failed'')) s) =
     Inr failed_job"
  by (simp add: extract_handler_def io_bind_def io_return_def datetime_now_def
      page_screenshot_def act_def offline_driver_def job_driver_def blank_driver_def
      failed_job_def sample_now_def)

lemma offline_driver_job:
  "fst (extract_job_details offline_driver sample_url s) = Inr failed_job"
proof -
  obtain s1 where "extract_body offline_driver sample_url s =
      (Inl (Error (ustr ''navigation failed'')), s1)"
    using offline_driver_body by blast
  then show ?thesis
    by (simp add: extract_job_details_def try_except_Exception_def offline_driver_handler)
qed

lemma closed_driver_job:
  "fst (extract_job_details closed_driver sample_url s) = Inl (Error (ustr ''screenshot failed''))"
  by (simp add: extract_job_details_def try_except_Exception_def extract_body_def
      extract_handler_def io_bind_def page_goto_def act_def closed_driver_def offline_driver_def
      job_driver_def blank_driver_def  page_screenshot_def datetime_now_def sample_url_def
      home_url_def ustr_def)

text \<open>
  C10. A record without \<open>error\<close> holds each of the nine content keys with the string
  that \<open>_extract_text\<close> returned for the key's selector (the empty string when the
  element is absent), and holds \<open>tags\<close> exactly when \<open>_extract_tags\<close> returned a
  list that is not empty, with that list as its value.
\<close>

theorem success_record_fields:
  assumes run: "extract_job_details d job_url s = (Inr job, s')"
      and ok: "map_of job ''error'' = None"
  shows "(\<forall>(k, selector)\<in>set [(''title'', ''.name h1''), (''salary'', ''.salary''),
             (''city'', ''.text-city''), (''experience'', ''.text-experience''),
             (''education'', ''.text-degree''), (''company'', ''.company-info .name''),
             (''company_type'', ''.company-info .type''),
             (''company_size'', ''.company-info .size''),
             (''job_description'', ''.job-sec-text'')].
           \<exists>v st st'. extract_text d selector st = (Inr v, st') \<and> map_of job k = Some (Str v)) \<and>
         (\<exists>tags st. extract_tags d st = (Inr tags, s') \<and>
            map_of job ''tags'' = (if tags = [] then None else Some (Tags tags)))"
  using run unfolding extract_job_details_def
proof (cases rule: try_except_Exception_InrE)
  case 1
  from extract_body_record(1,5) [OF 1] show ?thesis by blast
next
  case (2 msg s1)
  from extract_handler_record [OF 2(2)] ok show ?thesis by auto
qed

theorem success_record_fields_witness:
  "fst (extract_job_details job_driver sample_url (init ())) = Inr sample_job \<and>
   map_of sample_job ''error'' = None \<and>
   map_of sample_job ''tags'' = Some (Tags [ustr ''Python'', ustr ''Python'']) \<and>
   fst (extract_job_details blank_driver sample_url (init ())) = Inr blank_job \<and>
   map_of blank_job ''error'' = None \<and>
   map_of blank_job ''title'' = Some (Str []) \<and>
   map_of blank_job ''tags'' = None"
proof -
  have r1: "fst (extract_job_details job_driver sample_url (init ())) = Inr sample_job"
    unfolding extract_job_details_def by (rule fst_try_except_Exception_Inr [OF job_driver_body])
  have r2: "fst (extract_job_details blank_driver sample_url (init ())) = Inr blank_job"
    unfolding extract_job_details_def by (rule fst_try_except_Exception_Inr [OF blank_driver_body])
  have e1: "map_of sample_job ''error'' = None" by (simp add: sample_job_def)
  have e2: "map_of blank_job ''error'' = None" by (simp add: blank_job_def)
  have p1: "extract_job_details job_driver sample_url (init ()) =
      (Inr sample_job, snd (extract_job_details job_driver sample_url (init ())))"
    using r1 by (simp add: prod_eq_iff)
  have p2: "extract_job_details blank_driver sample_url (init ()) =
      (Inr blank_job, snd (extract_job_details blank_driver sample_url (init ())))"
    using r2 by (simp add: prod_eq_iff)
  note t1 = success_record_fields [OF p1 e1]
  note t2 = success_record_fields [OF p2 e2]
  have "map_of sample_job ''tags'' = Some (Tags [ustr ''Python'', ustr ''Python''])"
    by (simp add: sample_job_def)
  moreover have "map_of blank_job ''title'' = Some (Str [])" using t2 by (simp add: blank_job_def)
  moreover have "map_of blank_job ''tags'' = None" using t1 by (simp add: blank_job_def)
  ultimately show ?thesis using r1 r2 e1 e2 by simp
qed

text \<open>
  C6, as the code has it. A record that \<open>extract_job_details\<close> returns has one of two
  shapes, told apart by the key \<open>error\<close>. Without it the record holds the target URL
  and a timestamp. With it the record is exactly URL, error and timestamp, so it has no
  content field, and the error is \<open>str(e)\<close> of the \<open>Exception\<close> that ended the
  attempt, stored as it is: it is empty when that error carries no message.
\<close>

theorem record_shape:
  assumes run: "extract_job_details d job_url s = (Inr job, s')"
  shows "(case map_of job ''error'' of
            None \<Rightarrow>
              map_of job ''url'' = Some (Str job_url) \<and>
              (\<exists>ts. map_of job ''extracted_at'' = Some (Str ts))
          | Some v \<Rightarrow>
              (\<exists>msg s1 ts. extract_body d job_url s = (Inl (Error msg), s1) \<and>
                 job = [(''url'', Str job_url), (''error'', Str msg), (''extracted_at'', Str ts)]))"
  using run unfolding extract_job_details_def
proof (cases rule: try_except_Exception_InrE)
  case 1
  from extract_body_record(2,3,4) [OF 1] show ?thesis by simp
next
  case (2 msg s1)
  from extract_handler_record [OF 2(2)] obtain ts where
    "job = [(''url'', Str job_url), (''error'', Str msg), (''extracted_at'', Str ts)]" by auto
  with 2(1) show ?thesis by auto
qed

theorem record_shape_witness:
  "fst (extract_job_details job_driver sample_url (init ())) = Inr sample_job \<and>
   map_of sample_job ''error'' = None \<and>
   map_of sample_job ''url'' = Some (Str sample_url) \<and>
   fst (extract_job_details offline_driver sample_url (init ())) = Inr failed_job \<and>
   map_of failed_job ''error'' = Some (Str (ustr ''navigation failed''))"
proof -
  have r1: "fst (extract_job_details job_driver sample_url (init ())) = Inr sample_job"
    unfolding extract_job_details_def by (rule fst_try_except_Exception_Inr [OF job_driver_body])
  have r2: "fst (extract_job_details offline_driver sample_url (init ())) = Inr failed_job"
    by (rule offline_driver_job)
  have p1: "extract_job_details job_driver sample_url (init ()) =
      (Inr sample_job, snd (extract_job_details job_driver sample_url (init ())))"
    using r1 by (simp add: prod_eq_iff)
  have p2: "extract_job_details offline_driver sample_url (init ()) =
      (Inr failed_job, snd (extract_job_details offline_driver sample_url (init ())))"
    using r2 by (simp add: prod_eq_iff)
  note t1 = record_shape [OF p1]
  note t2 = record_shape [OF p2]
  have "map_of sample_job ''error'' = None" by (simp add: sample_job_def)
  moreover have "map_of sample_job ''url'' = Some (Str sample_url)"
    using t1 by (simp add: sample_job_def)
  moreover have "map_of failed_job ''error'' = Some (Str (ustr ''navigation failed''))"
    using t2 by (simp add: failed_job_def)
  ultimately show ?thesis using r1 r2 by simp
qed

lemma silent_driver_job:
  "fst (extract_job_details silent_driver sample_url s) = Inr silent_job"
  by (simp add: extract_job_details_def try_except_Exception_def extract_body_def
      extract_handler_def io_bind_def io_return_def page_goto_def act_def silent_driver_def
      job_driver_def blank_driver_def page_screenshot_def datetime_now_def sample_url_def
      home_url_def ustr_def silent_job_def sample_now_def)

text \<open>
  C6 as stated fails: when the navigation raises an error without a message, the
  record returned is a failed record whose error description is empty.
\<close>

theorem empty_error_counterexample:
  "fst (extract_job_details silent_driver sample_url (init ())) =
     Inr [(''url'', Str sample_url), (''error'', Str []),
          (''extracted_at'', Str (ustr ''2024-05-01T10:00:00''))]"
  using silent_driver_job [of "init ()"] by (simp add: silent_job_def)

text \<open>
  The handler where it works: an \<open>Exception\<close> in the attempt is turned into a failed
  record that carries its description, after a screenshot, whenever the screenshot call
  returns.
\<close>

lemma extract_failure_recorded:
  assumes body: "extract_body d job_url s = (Inl (Error msg), s1)"
      and shot: "\<forall>secs w. fst (drv_screenshot d secs w) = Inr ()"
  shows "\<exists>secs ts s'. extract_job_details d job_url s =
           (Inr [(''url'', Str job_url), (''error'', Str msg), (''extracted_at'', Str ts)], s') \<and>
         EvScreenshot secs (Inr ()) \<in> set (trace s')"
proof -
  obtain t w1 where n1: "drv_now d (world s1) = (t, w1)" by (cases "drv_now d (world s1)")
  obtain r w2 where sh: "drv_screenshot d (epoch t) w1 = (r, w2)"
    by (cases "drv_screenshot d (epoch t) w1")
  have r: "r = Inr ()" using shot sh by (metis fst_conv)
  obtain t' w3 where n2: "drv_now d w2 = (t', w3)" by (cases "drv_now d w2")
  let ?run = "extract_job_details d job_url s"
  have a: "fst ?run =
      Inr [(''url'', Str job_url), (''error'', Str msg), (''extracted_at'', Str (isoformat t'))]"
    by (simp add: extract_job_details_def try_except_Exception_def body extract_handler_def
        io_bind_def io_return_def datetime_now_def page_screenshot_def act_def n1 sh r n2)
  have b: "EvScreenshot (epoch t) (Inr ()) \<in> set (trace (snd ?run))"
    by (simp add: extract_job_details_def try_except_Exception_def body extract_handler_def
        io_bind_def io_return_def datetime_now_def page_screenshot_def act_def n1 sh r n2)
  have "?run = (Inr [(''url'', Str job_url), (''error'', Str msg),
                      (''extracted_at'', Str (isoformat t'))], snd ?run)"
    using a by (simp add: prod_eq_iff)
  with b show ?thesis by blast
qed

text \<open>
  C1. The screenshot in the handler is awaited outside any \<open>try\<close>. In a session whose
  job page cannot be loaded and whose screenshot raises as well,
  \<open>extract_job_details\<close> returns no record: it raises the error of the screenshot, and
  the description of the navigation error is lost.
\<close>

theorem screenshot_error_escapes:
  "fst (extract_job_details closed_driver sample_url (init ())) =
     Inl (Error (ustr ''screenshot failed'')) \<and>
   trace (snd (extract_job_details closed_driver sample_url (init ()))) =
     [EvGoto sample_url (Inl (Error (ustr ''navigation failed''))),
      EvScreenshot 1714557600 (Inl (Error (ustr ''screenshot failed'')))]"
  by (simp add: extract_job_details_def try_except_Exception_def extract_body_def
      extract_handler_def io_bind_def page_goto_def act_def closed_driver_def offline_driver_def
      job_driver_def blank_driver_def init_def page_screenshot_def datetime_now_def sample_url_def
      home_url_def ustr_def sample_now_def)

section \<open>Properties of the export\<close>

lemma fold_fieldnames:
  "fold (\<lambda>job names. names \<union> set (map fst job)) all_job_details A =
     A \<union> (\<Union>job\<in>set all_job_details. fst ` set job)"
  by (induction all_job_details arbitrary: A) auto

lemma fieldnames_set:
  "fieldnames all_job_details =
     sorted_list_of_set (\<Union>job\<in>set all_job_details. fst ` set job)"
  unfolding fieldnames_def fold_fieldnames by simp

lemma fieldnames_sort:
  "fieldnames all_job_details = sort (remdups (concat (map (map fst) all_job_details)))"
proof -
  have "(\<Union>job\<in>set all_job_details. fst ` set job) = set (concat (map (map fst) all_job_details))"
    by auto
  then show ?thesis unfolding fieldnames_set by (simp only: sorted_list_of_set_sort_remdups)
qed

lemma writerow_known:
  "fst ` set job \<subseteq> set names \<Longrightarrow>
   writerow names job = Inr (map (\<lambda>k. case map_of job k of Some v \<Rightarrow> v | None \<Rightarrow> Str []) names)"
  by (auto simp: writerow_def list_ex_iff)

lemma writerows_known:
  "(\<Union>job\<in>set jobs. fst ` set job) \<subseteq> set names \<Longrightarrow>
   writerows names jobs =
     Inr (map (\<lambda>job. map (\<lambda>k. case map_of job k of Some v \<Rightarrow> v | None \<Rightarrow> Str []) names) jobs)"
proof (induction jobs)
  case Nil
  then show ?case by simp
next
  case (Cons job jobs)
  then have "fst ` set job \<subseteq> set names" and "(\<Union>job\<in>set jobs. fst ` set job) \<subseteq> set names"
    by auto
  then show ?case using Cons.IH by (simp add: writerow_known)
qed

lemma finite_keys: "finite (\<Union>job\<in>set all_job_details. fst ` set job)"
  by simp

text \<open>
  C9. The CSV export never fails on the records of a run. Its header is the sorted list,
  without repetition, of the keys that occur in any record, and it has one row per
  record, in order, with one cell for every header: the record's value under that key,
  or the empty string when the record has no such key. For the format \<open>csv\<close>,
  \<open>save_results\<close> hands exactly this header and these rows to the driver's file write,
  under the name \<open>job_details_<timestamp>.csv\<close> in the output directory, and reports
  the saved file when the write returns.
\<close>

theorem csv_export_table:
  "\<exists>header rows.
     csv_export all_job_details = Inr (CsvFile header rows) \<and>
     header = sorted_list_of_set (\<Union>job\<in>set all_job_details. fst ` set job) \<and>
     sorted header \<and> distinct header \<and>
     set header = (\<Union>job\<in>set all_job_details. fst ` set job) \<and>
     rows = map (\<lambda>job. map (\<lambda>k. case map_of job k of Some v \<Rightarrow> v | None \<Rightarrow> Str []) header)
              all_job_details \<and>
     (\<forall>s. save_results d output_dir ''csv'' timestamp all_job_details s =
        (case drv_write d output_dir (ustr ''job_details_'' @ timestamp @ ustr ''.csv'')
                (CsvFile header rows) (world s) of
           (Inl e, w') \<Rightarrow>
             (Inl e,
              s\<lparr>world := w',
                trace := trace s @
                  [EvWrite output_dir (ustr ''job_details_'' @ timestamp @ ustr ''.csv'')
                     (CsvFile header rows) (Inl e)]\<rparr>)
         | (Inr u, w') \<Rightarrow>
             (Inr (),
              s\<lparr>world := w',
                trace := trace s @
                  [EvWrite output_dir (ustr ''job_details_'' @ timestamp @ ustr ''.csv'')
                     (CsvFile header rows) (Inr u),
                   EvReport (Saved output_dir
                     (ustr ''job_details_'' @ timestamp @ ustr ''.csv''))]\<rparr>)))"
proof -
  let ?K = "\<Union>job\<in>set all_job_details. fst ` set job"
  let ?h = "sorted_list_of_set ?K"
  let ?rows = "map (\<lambda>job. map (\<lambda>k. case map_of job k of Some v \<Rightarrow> v | None \<Rightarrow> Str []) ?h)
              all_job_details"
  let ?name = "ustr ''job_details_'' @ timestamp @ ustr ''.csv''"
  have fin: "finite ?K" by simp
  have seth: "set ?h = ?K" using fin by simp
  have rows: "writerows ?h all_job_details = Inr ?rows"
  proof (rule writerows_known)
    show "?K \<subseteq> set ?h" using seth by blast
  qed
  have exp: "csv_export all_job_details = Inr (CsvFile ?h ?rows)"
    by (simp add: csv_export_def fieldnames_set rows)
  have sv: "\<forall>s. save_results d output_dir ''csv'' timestamp all_job_details s =
        (case drv_write d output_dir ?name (CsvFile ?h ?rows) (world s) of
           (Inl e, w') \<Rightarrow>
             (Inl e,
              s\<lparr>world := w',
                trace := trace s @ [EvWrite output_dir ?name (CsvFile ?h ?rows) (Inl e)]\<rparr>)
         | (Inr u, w') \<Rightarrow>
             (Inr (),
              s\<lparr>world := w',
                trace := trace s @
                  [EvWrite output_dir ?name (CsvFile ?h ?rows) (Inr u),
                   EvReport (Saved output_dir ?name)]\<rparr>))"
    by (auto simp: save_results_def exp io_bind_def write_file_def act_def tell_def
        split: prod.splits sum.splits)
  have "sorted ?h" "distinct ?h" by simp_all
  with exp seth sv show ?thesis by blast
qed

lemma sample_fieldnames:
  "fieldnames [failed_job, blank_job] =
     [''city'', ''company'', ''company_size'', ''company_type'', ''education'', ''error'',
      ''experience'', ''extracted_at'', ''job_description'', ''salary'', ''title'', ''url'']"
  by (simp add: fieldnames_sort failed_job_def blank_job_def)

section \<open>Properties of the run\<close>

lemma main_no_links:
  assumes "cfg_job_links config = None \<or> cfg_job_links config = Some []"
  shows "main (Some config) d w =
           (Inr (), \<lparr>world = w, trace = [EvReport NoJobLinks], playwright = False, browser = False\<rparr>)"
  using assms by (auto simp: main_def main_from_def tell_def init_def)

text \<open>
  C2, as the code has it. When the configuration holds no job link, \<open>main\<close> reports
  that and returns at once (lines 210--213): no directory is made, no session is
  started, nothing is written and no summary is shown.
\<close>

theorem no_targets_is_noop:
  assumes "cfg_job_links config = None \<or> cfg_job_links config = Some []"
  shows "main (Some config) d w =
           (Inr (), \<lparr>world = w, trace = [EvReport NoJobLinks], playwright = False, browser = False\<rparr>)"
  using assms by (rule main_no_links)

theorem no_targets_is_noop_witness:
  "main (Some \<lparr>cfg_job_links = Some [], cfg_output_dir = None, cfg_output_format = Some ''csv''\<rparr>)
     blank_driver () =
     (Inr (), \<lparr>world = (), trace = [EvReport NoJobLinks], playwright = False, browser = False\<rparr>)"
  using no_targets_is_noop
    [of "\<lparr>cfg_job_links = Some [], cfg_output_dir = None, cfg_output_format = Some ''csv''\<rparr>"
        blank_driver "()"]
  by simp

text \<open>
  C2 as stated fails: with an empty list of links the trace of the run holds no file
  write and no summary.
\<close>

theorem no_targets_counterexample:
  "\<not> (\<exists>dir name content r. EvWrite dir name content r \<in> set (trace (snd (main
        (Some \<lparr>cfg_job_links = Some [], cfg_output_dir = None, cfg_output_format = None\<rparr>)
        blank_driver ())))) \<and>
   \<not> (\<exists>successes failures. EvReport (Summary successes failures) \<in> set (trace (snd (main
        (Some \<lparr>cfg_job_links = Some [], cfg_output_dir = None, cfg_output_format = None\<rparr>)
        blank_driver ()))))"
  by (simp add: main_no_links)

section \<open>Reasoning about traces\<close>

lemma only_addsI:
  assumes "\<And>s r s'. m s = (r, s') \<Longrightarrow>
     (\<exists>evs. trace s' = trace s @ evs \<and> list_all P evs) \<and>
     playwright s' = playwright s \<and> browser s' = browser s"
  shows "only_adds P m"
  using assms unfolding only_adds_def by blast

lemma only_addsD:
  assumes "only_adds P m" and "m s = (r, s')"
  shows "\<exists>evs. trace s' = trace s @ evs \<and> list_all P evs"
    and "playwright s' = playwright s" and "browser s' = browser s"
  using assms unfolding only_adds_def by blast+

lemma only_adds_return: "only_adds P (io_return a)"
  by (rule only_addsI) (auto simp: io_return_def)

lemma only_adds_raise: "only_adds P (\<lambda>s. (Inl e, s))"
  by (rule only_addsI) auto

lemma only_adds_bind:
  assumes m: "only_adds P m" and f: "\<And>a. only_adds P (f a)"
  shows "only_adds P (io_bind m f)"
proof (rule only_addsI)
  fix s r s' assume run: "io_bind m f s = (r, s')"
  obtain r1 s1 where m1: "m s = (r1, s1)" by (cases "m s")
  note a = only_addsD [OF m m1]
  show "(\<exists>evs. trace s' = trace s @ evs \<and> list_all P evs) \<and>
     playwright s' = playwright s \<and> browser s' = browser s"
  proof (cases r1)
    case (Inl e)
    with run m1 have "s' = s1" by (simp add: io_bind_def)
    with a show ?thesis by simp
  next
    case (Inr x)
    with run m1 have "f x s1 = (r, s')" by (simp add: io_bind_def)
    note b = only_addsD [OF f this]
    from a(1) b(1) obtain e1 e2 where "trace s1 = trace s @ e1" "list_all P e1"
      "trace s' = trace s1 @ e2" "list_all P e2" by blast
    then have "trace s' = trace s @ (e1 @ e2) \<and> list_all P (e1 @ e2)" by simp
    then show ?thesis using a(2,3) b(2,3) by metis
  qed
qed

lemma only_adds_try_except:
  assumes m: "only_adds P m" and h: "\<And>e. only_adds P (h e)"
  shows "only_adds P (try_except m h)"
proof (rule only_addsI)
  fix s r s' assume run: "try_except m h s = (r, s')"
  obtain r1 s1 where m1: "m s = (r1, s1)" by (cases "m s")
  note a = only_addsD [OF m m1]
  show "(\<exists>evs. trace s' = trace s @ evs \<and> list_all P evs) \<and>
     playwright s' = playwright s \<and> browser s' = browser s"
  proof (cases r1)
    case (Inr x)
    with run m1 have "s' = s1" by (simp add: try_except_def)
    with a show ?thesis by simp
  next
    case (Inl e)
    with run m1 have "h e s1 = (r, s')" by (simp add: try_except_def)
    note b = only_addsD [OF h this]
    from a(1) b(1) obtain e1 e2 where "trace s1 = trace s @ e1" "list_all P e1"
      "trace s' = trace s1 @ e2" "list_all P e2" by blast
    then have "trace s' = trace s @ (e1 @ e2) \<and> list_all P (e1 @ e2)" by simp
    then show ?thesis using a(2,3) b(2,3) by metis
  qed
qed

lemma only_adds_try_except_Exception:
  assumes m: "only_adds P m" and h: "\<And>e. only_adds P (h e)"
  shows "only_adds P (try_except_Exception m h)"
proof (rule only_addsI)
  fix s r s' assume run: "try_except_Exception m h s = (r, s')"
  obtain r1 s1 where m1: "m s = (r1, s1)" by (cases "m s")
  note a = only_addsD [OF m m1]
  show "(\<exists>evs. trace s' = trace s @ evs \<and> list_all P evs) \<and>
     playwright s' = playwright s \<and> browser s' = browser s"
  proof (cases "\<exists>msg. r1 = Inl (Error msg)")
    case False
    with run m1 have "s' = s1"
      by (auto simp: try_except_Exception_def split: sum.splits exn.splits)
    with a show ?thesis by simp
  next
    case True
    then obtain msg where "r1 = Inl (Error msg)" by blast
    with run m1 have "h (Error msg) s1 = (r, s')" by (simp add: try_except_Exception_def)
    note b = only_addsD [OF h this]
    from a(1) b(1) obtain e1 e2 where "trace s1 = trace s @ e1" "list_all P e1"
      "trace s' = trace s1 @ e2" "list_all P e2" by blast
    then have "trace s' = trace s @ (e1 @ e2) \<and> list_all P (e1 @ e2)" by simp
    then show ?thesis using a(2,3) b(2,3) by metis
  qed
qed

lemma only_adds_act:
  assumes "\<And>r. P (ev r)"
  shows "only_adds P (act f ev)"
  using assms by (intro only_addsI) (auto simp: act_def split: prod.splits)

lemma only_adds_tell: "P (EvReport r) \<Longrightarrow> only_adds P (tell r)"
  by (intro only_addsI) (auto simp: tell_def)

lemma only_adds_now: "only_adds P (datetime_now d)"
  by (intro only_addsI) (auto simp: datetime_now_def split: prod.splits)

lemma only_adds_mono:
  assumes "only_adds P m" and "\<And>ev. P ev \<Longrightarrow> Q ev"
  shows "only_adds Q m"
  using assms unfolding only_adds_def list_all_iff by (metis (no_types, lifting))

lemma quiet_goto: "only_adds quiet (page_goto d url)"
  unfolding page_goto_def by (rule only_adds_act) simp

lemma quiet_sleep: "only_adds quiet (asyncio_sleep d n)"
  unfolding asyncio_sleep_def by (rule only_adds_act) simp

lemma quiet_query: "only_adds quiet (page_query_selector d sel)"
  unfolding page_query_selector_def by (rule only_adds_act) simp

lemma quiet_query_all: "only_adds quiet (page_query_selector_all d sel)"
  unfolding page_query_selector_all_def by (rule only_adds_act) simp

lemma quiet_text: "only_adds quiet (text_content d el)"
  unfolding text_content_def by (rule only_adds_act) simp

lemma quiet_wait: "only_adds quiet (page_wait_for_selector d sel)"
  unfolding page_wait_for_selector_def by (rule only_adds_act) simp

lemma quiet_screenshot: "only_adds quiet (page_screenshot d secs)"
  unfolding page_screenshot_def by (rule only_adds_act) simp

lemma quiet_input: "only_adds quiet (input_prompt d)"
  unfolding input_prompt_def by (rule only_adds_act) simp

lemma quiet_makedirs: "only_adds quiet (os_makedirs d dir)"
  unfolding os_makedirs_def by (rule only_adds_act) simp

lemma quiet_write: "only_adds quiet (write_file d dir name content)"
  unfolding write_file_def by (rule only_adds_act) simp

lemma quiet_tell: "only_adds quiet (tell r)"
  by (rule only_adds_tell) simp

lemmas quiet_ops = quiet_goto quiet_sleep quiet_query quiet_query_all quiet_text quiet_wait
  quiet_screenshot quiet_input quiet_makedirs quiet_write quiet_tell only_adds_now
  only_adds_return only_adds_raise

lemma quiet_extract_text: "only_adds quiet (extract_text d selector)"
  unfolding extract_text_def
  by (intro only_adds_try_except only_adds_bind quiet_ops)
     (auto split: option.splits intro!: only_adds_bind quiet_ops)

lemma tags_loop_quiet:
  "tags_loop d els tags s = (r, s') \<Longrightarrow>
     (\<exists>evs. trace s' = trace s @ evs \<and> list_all quiet evs) \<and>
     playwright s' = playwright s \<and> browser s' = browser s"
proof (induction els arbitrary: tags s)
  case Nil
  then show ?case by simp
next
  case (Cons el els)
  obtain r1 s1 where t: "text_content d el s = (r1, s1)" by (cases "text_content d el s")
  note a = only_addsD [OF quiet_text t]
  show ?case
  proof (cases r1)
    case (Inl e)
    with Cons.prems t have "s' = s1" by simp
    with a show ?thesis by simp
  next
    case (Inr x)
    with Cons.prems t obtain tags' where "tags_loop d els tags' s1 = (r, s')"
      by (auto split: option.splits if_splits)
    note b = Cons.IH [OF this]
    from a(1) b obtain e1 e2 where "trace s1 = trace s @ e1" "list_all quiet e1"
      "trace s' = trace s1 @ e2" "list_all quiet e2" by blast
    then have "trace s' = trace s @ (e1 @ e2) \<and> list_all quiet (e1 @ e2)" by simp
    then show ?thesis using a(2,3) b by metis
  qed
qed

lemma quiet_extract_tags: "only_adds quiet (extract_tags d)"
proof (rule only_addsI)
  fix s r s' assume run: "extract_tags d s = (r, s')"
  obtain r1 s1 where q: "page_query_selector_all d ''.job-tags span'' s = (r1, s1)"
    by (cases "page_query_selector_all d ''.job-tags span'' s")
  note a = only_addsD [OF quiet_query_all q]
  show "(\<exists>evs. trace s' = trace s @ evs \<and> list_all quiet evs) \<and>
     playwright s' = playwright s \<and> browser s' = browser s"
  proof (cases r1)
    case (Inl e)
    with run q have "s' = s1" by (simp add: extract_tags_def)
    with a show ?thesis by simp
  next
    case (Inr els)
    with run q obtain x where "tags_loop d els [] s1 = (x, s')"
      by (auto simp: extract_tags_def split: prod.splits)
    note b = tags_loop_quiet [OF this]
    from a(1) b obtain e1 e2 where "trace s1 = trace s @ e1" "list_all quiet e1"
      "trace s' = trace s1 @ e2" "list_all quiet e2" by blast
    then have "trace s' = trace s @ (e1 @ e2) \<and> list_all quiet (e1 @ e2)" by simp
    then show ?thesis using a(2,3) b by metis
  qed
qed

lemma quiet_extract_job_details: "only_adds quiet (extract_job_details d job_url)"
  unfolding extract_job_details_def extract_body_def extract_handler_def
  by (intro only_adds_try_except_Exception only_adds_try_except only_adds_bind quiet_ops
      quiet_extract_text quiet_extract_tags) (simp add: Let_def only_adds_return)

lemma quiet_check_indicators: "only_adds quiet (check_indicators d inds)"
proof (rule only_addsI)
  fix s r s' assume "check_indicators d inds s = (r, s')"
  then show "(\<exists>evs. trace s' = trace s @ evs \<and> list_all quiet evs) \<and>
     playwright s' = playwright s \<and> browser s' = browser s"
  proof (induction inds arbitrary: s)
    case Nil
    then show ?case by simp
  next
    case (Cons ind inds)
    obtain r1 s1 where q: "page_query_selector d ind s = (r1, s1)"
      by (cases "page_query_selector d ind s")
    note a = only_addsD [OF quiet_query q]
    show ?case
    proof (cases "\<exists>el. r1 = Inr (Some el)")
      case True
      with Cons.prems q have "s' = s1" by auto
      with a show ?thesis by simp
    next
      case False
      with Cons.prems q have "check_indicators d inds s1 = (r, s')"
        by (cases r1) (auto split: if_splits)
      note b = Cons.IH [OF this]
      from a(1) b obtain e1 e2 where "trace s1 = trace s @ e1" "list_all quiet e1"
        "trace s' = trace s1 @ e2" "list_all quiet e2" by blast
      then have "trace s' = trace s @ (e1 @ e2) \<and> list_all quiet (e1 @ e2)" by simp
      then show ?thesis using a(2,3) b by metis
    qed
  qed
qed

lemma quiet_poll_login: "only_adds quiet (poll_login d n)"
proof (induction n)
  case 0
  have "poll_login d 0 = io_bind (tell LoginTimeout) (\<lambda>_. io_return False)" by (rule ext) simp
  then show ?case by (simp add: only_adds_bind quiet_ops)
next
  case (Suc n)
  have "poll_login d (Suc n) =
      io_bind (asyncio_sleep d 5) (\<lambda>_.
        io_bind (check_indicators d login_indicators) (\<lambda>found.
          if found then io_return True else poll_login d n))"
    by (rule ext) (auto simp: io_bind_def io_return_def split: prod.splits sum.splits)
  then show ?case using Suc
    by (simp add: only_adds_bind quiet_ops quiet_check_indicators)
qed

lemma quiet_ensure_logged_in: "only_adds quiet (ensure_logged_in d)"
  unfolding ensure_logged_in_def
  by (intro only_adds_bind quiet_ops quiet_check_indicators)
     (simp add: only_adds_bind quiet_ops quiet_poll_login)

lemma quiet_crawl_loop: "only_adds quiet (crawl_loop d urls acc)"
proof (induction urls arbitrary: acc)
  case Nil
  have "crawl_loop d [] acc = io_return acc" by (rule ext) (simp add: io_return_def)
  then show ?case by (simp add: only_adds_return)
next
  case (Cons job_url rest)
  have "crawl_loop d (job_url # rest) acc =
      io_bind (extract_job_details d job_url) (\<lambda>job_details.
        io_bind (io_bind (case map_of job_details ''title'' of
                           Some v \<Rightarrow> tell (ShowTitle v) | None \<Rightarrow> io_return ()) (\<lambda>_.
                io_bind (case map_of job_details ''error'' of
                           Some v \<Rightarrow> tell (ShowError v) | None \<Rightarrow> io_return ()) (\<lambda>_.
                  asyncio_sleep d 2))) (\<lambda>_.
          crawl_loop d rest (acc @ [job_details])))"
    by (rule ext) (auto simp: io_bind_def split: prod.splits sum.splits)
  moreover have "only_adds quiet \<dots>"
    by (intro only_adds_bind quiet_extract_job_details quiet_ops Cons.IH)
       (auto split: option.splits intro: quiet_ops)
  ultimately show ?case by simp
qed

lemma quiet_save_results:
  "only_adds quiet (save_results d output_dir output_format timestamp all_job_details)"
  unfolding save_results_def
  by (auto split: sum.splits intro!: only_adds_bind quiet_ops)

lemma closes_last_close: "closes_last d (close d)"
  unfolding closes_last_def by (intro allI impI disjI2) (rule exI, rule exI [of _ "[]"], simp)

lemma closes_last_bind:
  assumes m: "only_adds quiet m" and f: "\<And>a. closes_last d (f a)"
  shows "closes_last d (io_bind m f)"
  unfolding closes_last_def
proof (intro allI impI)
  fix s r s' assume h: "browser s \<and> playwright s \<and> io_bind m f s = (r, s')"
  obtain r1 s1 where m1: "m s = (r1, s1)" by (cases "m s")
  note a = only_addsD [OF m m1]
  from a(1) obtain e1 where e1: "trace s1 = trace s @ e1" "list_all quiet e1" by blast
  show "((\<exists>e. r = Inl e) \<and> (\<exists>evs. trace s' = trace s @ evs \<and> list_all quiet evs)) \<or>
        (\<exists>s2 evs. trace s2 = trace s @ evs \<and> list_all quiet evs \<and> browser s2 \<and>
           playwright s2 \<and> close d s2 = (r, s'))"
  proof (cases r1)
    case (Inl e)
    with h m1 have "s' = s1" "r = Inl e" by (simp_all add: io_bind_def)
    with e1 show ?thesis by blast
  next
    case (Inr x)
    with h m1 have fx: "f x s1 = (r, s')" by (simp add: io_bind_def)
    have fl: "browser s1 \<and> playwright s1" using a(2,3) h by simp
    from f [of x, unfolded closes_last_def] fl fx
    consider (raise) e e2 where "r = Inl e" "trace s' = trace s1 @ e2" "list_all quiet e2"
      | (closed) s2 e2 where "trace s2 = trace s1 @ e2" "list_all quiet e2" "browser s2"
          "playwright s2" "close d s2 = (r, s')"
      by blast
    then show ?thesis
    proof cases
      case raise
      then have "trace s' = trace s @ (e1 @ e2) \<and> list_all quiet (e1 @ e2)" using e1 by simp
      with raise(1) show ?thesis by blast
    next
      case closed
      then have "trace s2 = trace s @ (e1 @ e2) \<and> list_all quiet (e1 @ e2)" using e1 by simp
      with closed(3,4,5) show ?thesis by blast
    qed
  qed
qed

lemma closes_last_if:
  "closes_last d a \<Longrightarrow> closes_last d b \<Longrightarrow> closes_last d (if c then a else b)"
  by simp

lemma main_from_tail:
  assumes "cfg_job_links config = Some links" and "links \<noteq> []"
  shows "\<exists>tail. closes_last d tail \<and>
           main_from (Some config) d =
             io_bind (os_makedirs d (case cfg_output_dir config of
                                       Some dir \<Rightarrow> dir | None \<Rightarrow> ustr ''./job_details''))
               (\<lambda>_. io_bind (start d) (\<lambda>_. tail))"
  unfolding main_from_def using assms
  apply (simp add: Let_def)
  apply (rule exI)
  apply (rule conjI [rotated])
   apply (rule refl)
  apply (intro closes_last_bind closes_last_if closes_last_close quiet_ensure_logged_in
      quiet_crawl_loop quiet_save_results quiet_ops)
  done

lemma start_effect:
  assumes "start d s = (r, s')"
  shows "(\<exists>evs. trace s' = trace s @ evs \<and> list_all quiet evs) \<and>
         (r = Inr () \<longrightarrow> playwright s' \<and> browser s') \<and>
         (browser s' \<longrightarrow> browser s \<or> playwright s')"
  using assms
  by (auto simp: start_def io_bind_def io_return_def act_def os_makedirs_def
      split: prod.splits sum.splits if_splits)

lemma close_effect:
  assumes "browser s" and "playwright s" and "close d s = (r, s')"
  shows "(r = Inr () \<and> trace s' = trace s @ [EvCloseBrowser (Inr ()), EvStopPlaywright (Inr ())]) \<or>
         (\<exists>e. r = Inl e \<and>
            (trace s' = trace s @ [EvCloseBrowser (Inl e)] \<or>
             trace s' = trace s @ [EvCloseBrowser (Inr ()), EvStopPlaywright (Inl e)]))"
  using assms
  by (cases r) (auto simp: close_def io_bind_def act_def split: prod.splits sum.splits)

lemma main_outcome:
  assumes run: "main config_file d w = (r, s')" and started: "browser s'"
  shows "(\<exists>e. r = Inl e \<and> list_all quiet (trace s')) \<or>
         (\<exists>s2. list_all quiet (trace s2) \<and> browser s2 \<and> playwright s2 \<and>
            close d s2 = (r, s'))"
proof (cases config_file)
  case None
  with run started show ?thesis by (auto simp: main_def main_from_def tell_def init_def)
next
  case (Some config)
  show ?thesis
  proof (cases "cfg_job_links config = None \<or> cfg_job_links config = Some []")
    case True
    with run started Some show ?thesis
      by (auto simp: main_def main_from_def tell_def init_def)
  next
    case False
    then obtain links where links: "cfg_job_links config = Some links" "links \<noteq> []" by auto
    from main_from_tail [OF links, of d] obtain tail dir where
      tail: "closes_last d tail" and
      eq: "main_from (Some config) d =
             io_bind (os_makedirs d dir) (\<lambda>_. io_bind (start d) (\<lambda>_. tail))"
      by blast
    from run Some eq have r0: "io_bind (os_makedirs d dir) (\<lambda>_. io_bind (start d) (\<lambda>_. tail)) (init w) = (r, s')"
      by (simp add: main_def)
    obtain r1 s0 where mk: "os_makedirs d dir (init w) = (r1, s0)"
      by (cases "os_makedirs d dir (init w)")
    note a = only_addsD [OF quiet_makedirs mk]
    have t0: "list_all quiet (trace s0)" and f0: "\<not> browser s0"
      using a by (auto simp: init_def)
    show ?thesis
    proof (cases r1)
      case (Inl e)
      with r0 mk have "s' = s0" by (simp add: io_bind_def)
      with f0 started show ?thesis by simp
    next
      case (Inr u)
      with r0 mk have r1: "io_bind (start d) (\<lambda>_. tail) s0 = (r, s')" by (simp add: io_bind_def)
      obtain r2 s1 where st: "start d s0 = (r2, s1)" by (cases "start d s0")
      note b = start_effect [OF st]
      have t1: "list_all quiet (trace s1)" using b t0 by auto
      show ?thesis
      proof (cases r2)
        case (Inl e)
        with r1 st have "s' = s1" "r = Inl e" by (simp_all add: io_bind_def)
        with t1 show ?thesis by blast
      next
        case (Inr u')
        with r1 st have r2: "tail s1 = (r, s')" by (simp add: io_bind_def)
        have fl: "browser s1 \<and> playwright s1" using b Inr by simp
        from tail [unfolded closes_last_def] fl r2
        consider (raise) e e2 where "r = Inl e" "trace s' = trace s1 @ e2" "list_all quiet e2"
          | (closed) s2 e2 where "trace s2 = trace s1 @ e2" "list_all quiet e2" "browser s2"
              "playwright s2" "close d s2 = (r, s')"
          by blast
        then show ?thesis
        proof cases
          case raise
          then have "list_all quiet (trace s')" using t1 by simp
          with raise(1) show ?thesis by blast
        next
          case closed
          then have "list_all quiet (trace s2)" using t1 by simp
          with closed(3,4,5) show ?thesis by blast
        qed
      qed
    qed
  qed
qed

text \<open>
  C3, as the code has it. \<open>main\<close> calls \<open>close\<close> at its two returns after the start
  of the session (login timeout and normal completion) and nowhere else; it has no
  handler of its own. So whenever \<open>main\<close> returns with the browser context launched,
  the trace ends with the two calls of \<open>close\<close> and holds no earlier one. Whenever it
  raises, no call of \<open>close\<close> was made at all, unless the error is one that a call of
  \<open>close\<close> itself raised.
\<close>

theorem close_on_return:
  assumes run: "main config_file d w = (r, s')" and started: "browser s'"
  shows "(r = Inr () \<longrightarrow>
            (\<exists>tr. list_all quiet tr \<and>
               trace s' = tr @ [EvCloseBrowser (Inr ()), EvStopPlaywright (Inr ())])) \<and>
         (\<forall>e. r = Inl e \<longrightarrow>
            list_all quiet (trace s') \<or>
            (\<exists>tr. list_all quiet tr \<and>
               (trace s' = tr @ [EvCloseBrowser (Inl e)] \<or>
                trace s' = tr @ [EvCloseBrowser (Inr ()), EvStopPlaywright (Inl e)])))"
  using main_outcome [OF run started]
proof (elim disjE exE conjE)
  fix e assume "r = Inl e" "list_all quiet (trace s')"
  then show ?thesis by simp
next
  fix s2 assume s2: "list_all quiet (trace s2)" "browser s2" "playwright s2"
    and c: "close d s2 = (r, s')"
  from close_effect [OF s2(2,3) c] s2(1) show ?thesis by (cases r) auto
qed

lemma check_indicators_seen:
  assumes "set inds \<subseteq> set login_indicators" and "check_indicators d inds s = (r, s')"
  shows "\<exists>evs b. r = Inr b \<and> trace s' = trace s @ evs \<and> list_all login_event evs \<and>
           (b \<longleftrightarrow> (\<exists>ev\<in>set evs. indicator_seen ev))"
  using assms
proof (induction inds arbitrary: s)
  case Nil
  then show ?case by simp
next
  case (Cons ind inds)
  obtain r1 w1 where q: "drv_query_selector d ind (world s) = (r1, w1)"
    by (cases "drv_query_selector d ind (world s)")
  let ?s1 = "s\<lparr>world := w1, trace := trace s @ [EvQuery ind r1]\<rparr>"
  have step: "page_query_selector d ind s = (r1, ?s1)"
    by (simp add: page_query_selector_def act_def q)
  have ind: "ind \<in> set login_indicators" and sub: "set inds \<subseteq> set login_indicators"
    using Cons.prems(1) by auto
  show ?case
  proof (cases "\<exists>el. r1 = Inr (Some el)")
    case True
    then obtain el where el: "r1 = Inr (Some el)" by blast
    with Cons.prems(2) step have "r = Inr True" "s' = ?s1" by auto
    then have "r = Inr True \<and> trace s' = trace s @ [EvQuery ind r1] \<and>
        list_all login_event [EvQuery ind r1] \<and>
        (True \<longleftrightarrow> (\<exists>ev\<in>set [EvQuery ind r1]. indicator_seen ev))"
      using ind el by simp
    then show ?thesis by blast
  next
    case False
    then have ns: "\<not> indicator_seen (EvQuery ind r1)"
      by (cases r1) (auto split: option.splits)
    from False Cons.prems(2) step have "check_indicators d inds ?s1 = (r, s')"
      by (cases r1) (auto split: if_splits)
    from Cons.IH [OF sub this] obtain evs b where
      "r = Inr b" "trace s' = trace ?s1 @ evs" "list_all login_event evs"
      "b \<longleftrightarrow> (\<exists>ev\<in>set evs. indicator_seen ev)" by blast
    then have "r = Inr b \<and> trace s' = trace s @ (EvQuery ind r1 # evs) \<and>
        list_all login_event (EvQuery ind r1 # evs) \<and>
        (b \<longleftrightarrow> (\<exists>ev\<in>set (EvQuery ind r1 # evs). indicator_seen ev))"
      using ns ind by simp
    then show ?thesis by blast
  qed
qed

lemma poll_login_seen:
  assumes "poll_login d n s = (r, s')"
  shows "\<exists>evs. trace s' = trace s @ evs \<and> list_all login_event evs \<and>
           (r = Inr True \<longleftrightarrow> (\<exists>ev\<in>set evs. indicator_seen ev))"
  using assms
proof (induction n arbitrary: s)
  case 0
  then have "r = Inr False" "trace s' = trace s @ [EvReport LoginTimeout]"
    by (auto simp: io_bind_def tell_def io_return_def)
  then have "trace s' = trace s @ [EvReport LoginTimeout] \<and>
      list_all login_event [EvReport LoginTimeout] \<and>
      (r = Inr True \<longleftrightarrow> (\<exists>ev\<in>set [EvReport LoginTimeout]. indicator_seen ev))" by simp
  then show ?case by blast
next
  case (Suc n)
  obtain r1 w1 where sl: "drv_sleep d 5 (world s) = (r1, w1)" by (cases "drv_sleep d 5 (world s)")
  let ?s1 = "s\<lparr>world := w1, trace := trace s @ [EvSleep 5 r1]\<rparr>"
  have step: "asyncio_sleep d 5 s = (r1, ?s1)"
    by (simp add: asyncio_sleep_def act_def sl)
  show ?case
  proof (cases r1)
    case (Inl e)
    with Suc.prems step have "r = Inl e" "s' = ?s1" by auto
    then have "trace s' = trace s @ [EvSleep 5 r1] \<and> list_all login_event [EvSleep 5 r1] \<and>
        (r = Inr True \<longleftrightarrow> (\<exists>ev\<in>set [EvSleep 5 r1]. indicator_seen ev))" by simp
    then show ?thesis by blast
  next
    case (Inr u)
    obtain r2 s2 where ck: "check_indicators d login_indicators ?s1 = (r2, s2)"
      by (cases "check_indicators d login_indicators ?s1")
    from check_indicators_seen [OF subset_refl ck] obtain e2 b where
      c: "r2 = Inr b" "trace s2 = trace ?s1 @ e2" "list_all login_event e2"
         "b \<longleftrightarrow> (\<exists>ev\<in>set e2. indicator_seen ev)" by blast
    show ?thesis
    proof (cases b)
      case True
      with Suc.prems step Inr ck c(1) have "r = Inr True" "s' = s2" by auto
      then have "trace s' = trace s @ (EvSleep 5 r1 # e2) \<and>
          list_all login_event (EvSleep 5 r1 # e2) \<and>
          (r = Inr True \<longleftrightarrow> (\<exists>ev\<in>set (EvSleep 5 r1 # e2). indicator_seen ev))"
        using c True by simp
      then show ?thesis by blast
    next
      case False
      with Suc.prems step Inr ck c(1) have "poll_login d n s2 = (r, s')" by auto
      from Suc.IH [OF this] obtain e3 where
        p: "trace s' = trace s2 @ e3" "list_all login_event e3"
           "r = Inr True \<longleftrightarrow> (\<exists>ev\<in>set e3. indicator_seen ev)" by blast
      have "trace s' = trace s @ (EvSleep 5 r1 # e2 @ e3) \<and>
          list_all login_event (EvSleep 5 r1 # e2 @ e3) \<and>
          (r = Inr True \<longleftrightarrow> (\<exists>ev\<in>set (EvSleep 5 r1 # e2 @ e3). indicator_seen ev))"
        using c p False by auto
      then show ?thesis by blast
    qed
  qed
qed

lemma ensure_logged_in_seen:
  assumes "ensure_logged_in d s = (r, s')"
  shows "\<exists>evs. trace s' = trace s @ evs \<and> list_all login_event evs \<and>
           (r = Inr True \<longleftrightarrow> (\<exists>ev\<in>set evs. indicator_seen ev))"
proof -
  obtain r1 w1 where g: "drv_goto d home_url (world s) = (r1, w1)"
    by (cases "drv_goto d home_url (world s)")
  let ?s1 = "s\<lparr>world := w1, trace := trace s @ [EvGoto home_url r1]\<rparr>"
  have g': "page_goto d home_url s = (r1, ?s1)" by (simp add: page_goto_def act_def g)
  obtain r2 w2 where sl: "drv_sleep d 3 w1 = (r2, w2)" by (cases "drv_sleep d 3 w1")
  let ?s2 = "?s1\<lparr>world := w2, trace := trace ?s1 @ [EvSleep 3 r2]\<rparr>"
  have sl': "asyncio_sleep d 3 ?s1 = (r2, ?s2)" by (simp add: asyncio_sleep_def act_def sl)
  obtain r3 s3 where ck: "check_indicators d login_indicators ?s2 = (r3, s3)"
    by (cases "check_indicators d login_indicators ?s2")
  from check_indicators_seen [OF subset_refl ck] obtain e3 b where
    c: "r3 = Inr b" "trace s3 = trace ?s2 @ e3" "list_all login_event e3"
       "b \<longleftrightarrow> (\<exists>ev\<in>set e3. indicator_seen ev)" by blast
  obtain r4 w4 where ip: "drv_input d (world s3) = (r4, w4)" by (cases "drv_input d (world s3)")
  let ?s4 = "s3\<lparr>world := w4, trace := trace s3 @ [EvInput r4]\<rparr>"
  have ip': "input_prompt d s3 = (r4, ?s4)" by (simp add: input_prompt_def act_def ip)
  note run = assms [unfolded ensure_logged_in_def]
  show ?thesis
  proof (cases r1)
    case (Inl e)
    with run g' have "r = Inl e" "s' = ?s1" by (simp_all add: io_bind_def)
    then have "trace s' = trace s @ [EvGoto home_url r1] \<and>
        list_all login_event [EvGoto home_url r1] \<and>
        (r = Inr True \<longleftrightarrow> (\<exists>ev\<in>set [EvGoto home_url r1]. indicator_seen ev))" by simp
    then show ?thesis by blast
  next
    case g1: (Inr u1)
    show ?thesis
    proof (cases r2)
      case (Inl e)
      with run g' g1 sl' have "r = Inl e" "s' = ?s2" by (simp_all add: io_bind_def)
      then have "trace s' = trace s @ [EvGoto home_url r1, EvSleep 3 r2] \<and>
          list_all login_event [EvGoto home_url r1, EvSleep 3 r2] \<and>
          (r = Inr True \<longleftrightarrow>
             (\<exists>ev\<in>set [EvGoto home_url r1, EvSleep 3 r2]. indicator_seen ev))" by simp
      then show ?thesis by blast
    next
      case s2: (Inr u2)
      show ?thesis
      proof (cases b)
        case True
        with run g' g1 sl' s2 ck c(1) have "r = Inr True" "s' = s3"
          by (simp_all add: io_bind_def io_return_def)
        then have "trace s' = trace s @ (EvGoto home_url r1 # EvSleep 3 r2 # e3) \<and>
            list_all login_event (EvGoto home_url r1 # EvSleep 3 r2 # e3) \<and>
            (r = Inr True \<longleftrightarrow>
               (\<exists>ev\<in>set (EvGoto home_url r1 # EvSleep 3 r2 # e3). indicator_seen ev))"
          using c True by simp
        then show ?thesis by blast
      next
        case False
        show ?thesis
        proof (cases r4)
          case (Inl e)
          with run g' g1 sl' s2 ck c(1) False ip' have "r = Inl e" "s' = ?s4"
            by (simp_all add: io_bind_def)
          then have "trace s' = trace s @ (EvGoto home_url r1 # EvSleep 3 r2 # e3 @ [EvInput r4]) \<and>
              list_all login_event (EvGoto home_url r1 # EvSleep 3 r2 # e3 @ [EvInput r4]) \<and>
              (r = Inr True \<longleftrightarrow>
                 (\<exists>ev\<in>set (EvGoto home_url r1 # EvSleep 3 r2 # e3 @ [EvInput r4]).
                    indicator_seen ev))"
            using c False by auto
          then show ?thesis by blast
        next
          case (Inr u4)
          with run g' g1 sl' s2 ck c(1) False ip' have "poll_login d 60 ?s4 = (r, s')"
            by (simp add: io_bind_def)
          from poll_login_seen [OF this] obtain e5 where
            p: "trace s' = trace ?s4 @ e5" "list_all login_event e5"
               "r = Inr True \<longleftrightarrow> (\<exists>ev\<in>set e5. indicator_seen ev)" by blast
          have "trace s' = trace s @ (EvGoto home_url r1 # EvSleep 3 r2 # e3 @ EvInput r4 # e5) \<and>
              list_all login_event (EvGoto home_url r1 # EvSleep 3 r2 # e3 @ EvInput r4 # e5) \<and>
              (r = Inr True \<longleftrightarrow>
                 (\<exists>ev\<in>set (EvGoto home_url r1 # EvSleep 3 r2 # e3 @ EvInput r4 # e5).
                    indicator_seen ev))"
            using c p False by auto
          then show ?thesis by blast
        qed
      qed
    qed
  qed
qed

lemma check_indicators_absent:
  assumes "\<forall>sel\<in>set inds. \<forall>w el. fst (drv_query_selector d sel w) \<noteq> Inr (Some el)"
  shows "fst (check_indicators d inds s) = Inr False"
  using assms
proof (induction inds arbitrary: s)
  case Nil
  then show ?case by simp
next
  case (Cons ind inds)
  obtain r1 w1 where q: "drv_query_selector d ind (world s) = (r1, w1)"
    by (cases "drv_query_selector d ind (world s)")
  have "\<forall>el. r1 \<noteq> Inr (Some el)" using Cons.prems q by (metis fst_conv list.set_intros(1))
  moreover have "\<And>s. fst (check_indicators d inds s) = Inr False" using Cons by simp
  ultimately show ?case
    by (cases r1) (auto simp: page_query_selector_def act_def q)
qed

lemma poll_login_timeout:
  assumes sleep: "\<forall>n w. fst (drv_sleep d n w) = Inr ()"
      and absent: "\<forall>sel\<in>set login_indicators. \<forall>w el. fst (drv_query_selector d sel w) \<noteq> Inr (Some el)"
  shows "fst (poll_login d n s) = Inr False"
proof (induction n arbitrary: s)
  case 0
  show ?case by (simp add: io_bind_def tell_def io_return_def)
next
  case (Suc n)
  obtain r1 s1 where sl: "asyncio_sleep d 5 s = (r1, s1)" by (cases "asyncio_sleep d 5 s")
  have "r1 = Inr ()" using sleep sl
    by (auto simp: asyncio_sleep_def act_def split: prod.splits) (metis fst_conv)
  moreover obtain r2 s2 where ck: "check_indicators d login_indicators s1 = (r2, s2)"
    by (cases "check_indicators d login_indicators s1")
  moreover have "r2 = Inr False" using check_indicators_absent [OF absent, of s1] ck by simp
  ultimately show ?case using Suc sl by simp
qed

lemma ensure_logged_in_timeout:
  assumes goto: "\<forall>w. fst (drv_goto d home_url w) = Inr ()"
      and sleep: "\<forall>n w. fst (drv_sleep d n w) = Inr ()"
      and prompt: "\<forall>w. fst (drv_input d w) = Inr ()"
      and absent: "\<forall>sel\<in>set login_indicators. \<forall>w el. fst (drv_query_selector d sel w) \<noteq> Inr (Some el)"
  shows "fst (ensure_logged_in d s) = Inr False"
proof -
  obtain r1 s1 where g: "page_goto d home_url s = (r1, s1)" by (cases "page_goto d home_url s")
  have r1: "r1 = Inr ()" using goto g
    by (auto simp: page_goto_def act_def split: prod.splits) (metis fst_conv)
  obtain r2 s2 where sl: "asyncio_sleep d 3 s1 = (r2, s2)" by (cases "asyncio_sleep d 3 s1")
  have r2: "r2 = Inr ()" using sleep sl
    by (auto simp: asyncio_sleep_def act_def split: prod.splits) (metis fst_conv)
  obtain r3 s3 where ck: "check_indicators d login_indicators s2 = (r3, s3)"
    by (cases "check_indicators d login_indicators s2")
  have r3: "r3 = Inr False" using check_indicators_absent [OF absent, of s2] ck by simp
  obtain r4 s4 where ip: "input_prompt d s3 = (r4, s4)" by (cases "input_prompt d s3")
  have r4: "r4 = Inr ()" using prompt ip
    by (auto simp: input_prompt_def act_def split: prod.splits) (metis fst_conv)
  show ?thesis
    using poll_login_timeout [OF sleep absent, of 60 s4]
    by (simp add: ensure_logged_in_def io_bind_def g r1 sl r2 ck r3 ip r4)
qed

lemma main_login_timeout:
  assumes links: "cfg_job_links config = Some links" "links \<noteq> []"
      and mk: "os_makedirs d (case cfg_output_dir config of
                                Some dir \<Rightarrow> dir | None \<Rightarrow> ustr ''./job_details'') (init w) = (Inr (), s0)"
      and st: "start d s0 = (Inr (), s1)"
      and lg: "ensure_logged_in d s1 = (Inr False, s2)"
  shows "main (Some config) d w = close d s2"
  using links by (simp add: main_def main_from_def Let_def io_bind_def mk st lg)

text \<open>
  C5. The first part: \<open>ensure_logged_in\<close> makes only the calls of the login check, and
  it returns \<open>True\<close> exactly when one of its queries for a login indicator found an
  element, at once or while polling. The second: when the navigation to the home page,
  the sleeps and the prompt do not raise and no indicator is ever found, it returns
  \<open>False\<close>. The third: when it returns \<open>False\<close>, \<open>main\<close> does nothing but
  \<open>close\<close>; after the start of the session the trace holds the calls of the login
  check and then calls of \<open>close\<close> only, so no target is processed.
\<close>

theorem login_outcome:
  "(\<forall>r s'. ensure_logged_in d s = (r, s') \<longrightarrow>
      (\<exists>evs. trace s' = trace s @ evs \<and> list_all login_event evs \<and>
         (r = Inr True \<longleftrightarrow> (\<exists>ev\<in>set evs. indicator_seen ev)))) \<and>
   ((\<forall>w. fst (drv_goto d home_url w) = Inr ()) \<and>
    (\<forall>n w. fst (drv_sleep d n w) = Inr ()) \<and>
    (\<forall>w. fst (drv_input d w) = Inr ()) \<and>
    (\<forall>sel\<in>set login_indicators. \<forall>w el. fst (drv_query_selector d sel w) \<noteq> Inr (Some el)) \<longrightarrow>
      fst (ensure_logged_in d s) = Inr False) \<and>
   (\<forall>(config :: config) links w s0 s1 s2.
      cfg_job_links config = Some links \<and> links \<noteq> [] \<and>
      os_makedirs d (case cfg_output_dir config of
                       Some dir \<Rightarrow> dir | None \<Rightarrow> ustr ''./job_details'') (init w) = (Inr (), s0) \<and>
      start d s0 = (Inr (), s1) \<and>
      ensure_logged_in d s1 = (Inr False, s2) \<longrightarrow>
        main (Some config) d w = close d s2 \<and>
        (\<exists>login closing.
           trace (snd (main (Some config) d w)) = trace s1 @ login @ closing \<and>
           list_all login_event login \<and> closing \<noteq> [] \<and> list_all is_close closing))"
proof (intro conjI allI impI)
  fix r s' assume "ensure_logged_in d s = (r, s')"
  then show "\<exists>evs. trace s' = trace s @ evs \<and> list_all login_event evs \<and>
         (r = Inr True \<longleftrightarrow> (\<exists>ev\<in>set evs. indicator_seen ev))"
    by (rule ensure_logged_in_seen)
next
  assume h: "(\<forall>w. fst (drv_goto d home_url w) = Inr ()) \<and>
    (\<forall>n w. fst (drv_sleep d n w) = Inr ()) \<and>
    (\<forall>w. fst (drv_input d w) = Inr ()) \<and>
    (\<forall>sel\<in>set login_indicators. \<forall>w el. fst (drv_query_selector d sel w) \<noteq> Inr (Some el))"
  from h have a: "\<forall>w. fst (drv_goto d home_url w) = Inr ()" by (rule conjunct1)
  from h have b: "\<forall>n w. fst (drv_sleep d n w) = Inr ()" by (elim conjE)
  from h have c: "\<forall>w. fst (drv_input d w) = Inr ()" by (elim conjE)
  from h have e: "\<forall>sel\<in>set login_indicators. \<forall>w el. fst (drv_query_selector d sel w) \<noteq> Inr (Some el)"
    by (elim conjE)
  show "fst (ensure_logged_in d s) = Inr False"
    by (rule ensure_logged_in_timeout [OF a b c e])
next
  fix config :: config and links w s0 s1 s2
  assume h: "cfg_job_links config = Some links \<and> links \<noteq> [] \<and>
      os_makedirs d (case cfg_output_dir config of
                       Some dir \<Rightarrow> dir | None \<Rightarrow> ustr ''./job_details'') (init w) = (Inr (), s0) \<and>
      start d s0 = (Inr (), s1) \<and>
      ensure_logged_in d s1 = (Inr False, s2)"
  from h have l1: "cfg_job_links config = Some links" and l2: "links \<noteq> []"
    and mk: "os_makedirs d (case cfg_output_dir config of
                       Some dir \<Rightarrow> dir | None \<Rightarrow> ustr ''./job_details'') (init w) = (Inr (), s0)"
    and st: "start d s0 = (Inr (), s1)" and lg: "ensure_logged_in d s1 = (Inr False, s2)"
    by simp_all
  have m: "main (Some config) d w = close d s2"
    by (rule main_login_timeout [OF l1 l2 mk st lg])
  show "main (Some config) d w = close d s2" by (rule m)
  have f1: "playwright s1 \<and> browser s1" using start_effect [OF st] by simp
  have f2: "playwright s2" "browser s2"
    using only_addsD(2,3) [OF quiet_ensure_logged_in lg] f1 by simp_all
  from ensure_logged_in_seen [OF lg] obtain login where
    l: "trace s2 = trace s1 @ login" "list_all login_event login" by blast
  obtain r s' where c: "close d s2 = (r, s')" by (cases "close d s2")
  have "\<exists>closing. trace s' = trace s2 @ closing \<and> closing \<noteq> [] \<and> list_all is_close closing"
    using close_effect [OF f2(2) f2(1) c]
  proof (elim disjE exE conjE)
    assume "trace s' = trace s2 @ [EvCloseBrowser (Inr ()), EvStopPlaywright (Inr ())]"
    then have "trace s' = trace s2 @ [EvCloseBrowser (Inr ()), EvStopPlaywright (Inr ())] \<and>
        [EvCloseBrowser (Inr ()), EvStopPlaywright (Inr ())] \<noteq> [] \<and>
        list_all is_close [EvCloseBrowser (Inr ()), EvStopPlaywright (Inr ())]" by simp
    then show ?thesis by (rule exI)
  next
    fix e assume "trace s' = trace s2 @ [EvCloseBrowser (Inl e)]"
    then have "trace s' = trace s2 @ [EvCloseBrowser (Inl e)] \<and>
        [EvCloseBrowser (Inl e)] \<noteq> [] \<and> list_all is_close [EvCloseBrowser (Inl e)]" by simp
    then show ?thesis by (rule exI)
  next
    fix e assume "trace s' = trace s2 @ [EvCloseBrowser (Inr ()), EvStopPlaywright (Inl e)]"
    then have "trace s' = trace s2 @ [EvCloseBrowser (Inr ()), EvStopPlaywright (Inl e)] \<and>
        [EvCloseBrowser (Inr ()), EvStopPlaywright (Inl e)] \<noteq> [] \<and>
        list_all is_close [EvCloseBrowser (Inr ()), EvStopPlaywright (Inl e)]" by simp
    then show ?thesis by (rule exI)
  qed
  then obtain closing where cl: "trace s' = trace s2 @ closing" "closing \<noteq> []"
    "list_all is_close closing" by blast
  have "trace (snd (main (Some config) d w)) = trace s1 @ login @ closing \<and>
           list_all login_event login \<and> closing \<noteq> [] \<and> list_all is_close closing"
    using l cl m c by simp
  then show "\<exists>login closing.
           trace (snd (main (Some config) d w)) = trace s1 @ login @ closing \<and>
           list_all login_event login \<and> closing \<noteq> [] \<and> list_all is_close closing"
    by blast
qed

lemma job_driver_login:
  "ensure_logged_in job_driver (init ()) =
     (Inr True, \<lparr>world = (),
        trace = [EvGoto home_url (Inr ()), EvSleep 3 (Inr ()),
                 EvQuery (hd login_indicators) (Inr (Some 1))],
        playwright = False, browser = False\<rparr>)"
  by (simp add: ensure_logged_in_def io_bind_def io_return_def page_goto_def asyncio_sleep_def
      page_query_selector_def act_def init_def job_driver_def blank_driver_def
      login_indicators_def)

lemma late_driver_login:
  "fst (ensure_logged_in late_driver (init 0)) = Inr True"
proof -
  have p60: "\<And>s. poll_login late_driver 60 s =
      (case asyncio_sleep late_driver 5 s of
         (Inl e, s') \<Rightarrow> (Inl e, s')
       | (Inr _, s') \<Rightarrow>
           (case check_indicators late_driver login_indicators s' of
              (Inl e, s'') \<Rightarrow> (Inl e, s'')
            | (Inr found, s'') \<Rightarrow>
                (if found then (Inr True, s'') else poll_login late_driver 59 s'')))"
    using poll_login.simps(2) [of late_driver 59] by simp
  have p59: "\<And>s. poll_login late_driver 59 s =
      (case asyncio_sleep late_driver 5 s of
         (Inl e, s') \<Rightarrow> (Inl e, s')
       | (Inr _, s') \<Rightarrow>
           (case check_indicators late_driver login_indicators s' of
              (Inl e, s'') \<Rightarrow> (Inl e, s'')
            | (Inr found, s'') \<Rightarrow>
                (if found then (Inr True, s'') else poll_login late_driver 58 s'')))"
    using poll_login.simps(2) [of late_driver 58] by simp
  have q: "\<And>sel s. page_query_selector late_driver sel s =
      ((if 3 \<le> world s then Inr (Some 1) else Inr None),
       s\<lparr>trace := trace s @ [EvQuery sel (if 3 \<le> world s then Inr (Some 1) else Inr None)]\<rparr>)"
    by (simp add: page_query_selector_def act_def late_driver_def)
  have sl: "\<And>n s. asyncio_sleep late_driver n s =
      (Inr (), s\<lparr>world := Suc (world s), trace := trace s @ [EvSleep n (Inr ())]\<rparr>)"
    by (simp add: asyncio_sleep_def act_def late_driver_def)
  have g: "\<And>url s. page_goto late_driver url s =
      (Inr (), s\<lparr>trace := trace s @ [EvGoto url (Inr ())]\<rparr>)"
    by (simp add: page_goto_def act_def late_driver_def)
  have ip: "\<And>s. input_prompt late_driver s = (Inr (), s\<lparr>trace := trace s @ [EvInput (Inr ())]\<rparr>)"
    by (simp add: input_prompt_def act_def late_driver_def)
  show ?thesis
    by (simp add: ensure_logged_in_def io_bind_def io_return_def p60 p59 q sl g ip init_def
        login_indicators_def)
qed

lemma blank_makedirs:
  "os_makedirs blank_driver (ustr ''./job_details'') (init ()) =
     (Inr (), \<lparr>world = (), trace = [EvMakedirs (ustr ''./job_details'') (Inr ())],
        playwright = False, browser = False\<rparr>)"
  by (simp add: os_makedirs_def act_def init_def blank_driver_def)

lemma blank_start:
  "start blank_driver
     \<lparr>world = (), trace = [EvMakedirs (ustr ''./job_details'') (Inr ())],
        playwright = False, browser = False\<rparr> =
     (Inr (), \<lparr>world = (),
        trace = [EvMakedirs (ustr ''./job_details'') (Inr ()), EvStartPlaywright (Inr ()),
                 EvMakedirs user_data_dir (Inr ()), EvLaunch (Inr True)],
        playwright = True, browser = True\<rparr>)"
  by (simp add: io_bind_def os_makedirs_def start_def act_def io_return_def blank_driver_def)

lemma blank_driver_quiet:
  "\<forall>w. fst (drv_goto blank_driver home_url w) = Inr ()"
  "\<forall>n w. fst (drv_sleep blank_driver n w) = Inr ()"
  "\<forall>w. fst (drv_input blank_driver w) = Inr ()"
  "\<forall>sel\<in>set login_indicators. \<forall>w el. fst (drv_query_selector blank_driver sel w) \<noteq> Inr (Some el)"
  by (simp_all add: blank_driver_def)

theorem login_outcome_witness:
  "fst (ensure_logged_in blank_driver (init ())) = Inr False \<and>
   fst (ensure_logged_in job_driver (init ())) = Inr True \<and>
   fst (ensure_logged_in late_driver (init 0)) = Inr True \<and>
   main (Some sample_config) blank_driver () =
     close blank_driver (snd (ensure_logged_in blank_driver
       \<lparr>world = (),
        trace = [EvMakedirs (ustr ''./job_details'') (Inr ()), EvStartPlaywright (Inr ()),
                 EvMakedirs user_data_dir (Inr ()), EvLaunch (Inr True)],
        playwright = True, browser = True\<rparr>))"
proof -
  let ?s1 = "\<lparr>world = (),
        trace = [EvMakedirs (ustr ''./job_details'') (Inr ()), EvStartPlaywright (Inr ()),
                 EvMakedirs user_data_dir (Inr ()), EvLaunch (Inr True)],
        playwright = True, browser = True\<rparr>"
  note q = blank_driver_quiet
  have hyp: "(\<forall>w. fst (drv_goto blank_driver home_url w) = Inr ()) \<and>
    (\<forall>n w. fst (drv_sleep blank_driver n w) = Inr ()) \<and>
    (\<forall>w. fst (drv_input blank_driver w) = Inr ()) \<and>
    (\<forall>sel\<in>set login_indicators. \<forall>w el.
        fst (drv_query_selector blank_driver sel w) \<noteq> Inr (Some el))"
    using q by blast
  have a: "fst (ensure_logged_in blank_driver (init ())) = Inr False"
    using login_outcome [of blank_driver "init ()"] hyp by blast
  have a1: "fst (ensure_logged_in blank_driver ?s1) = Inr False"
    using login_outcome [of blank_driver ?s1] hyp by blast
  then have lg: "ensure_logged_in blank_driver ?s1 =
      (Inr False, snd (ensure_logged_in blank_driver ?s1))"
    by (simp add: prod_eq_iff)
  have cfg: "cfg_job_links sample_config = Some [sample_url]" "[sample_url] \<noteq> []"
    "(case cfg_output_dir sample_config of Some dir \<Rightarrow> dir | None \<Rightarrow> ustr ''./job_details'') =
       ustr ''./job_details''"
    by (simp_all add: sample_config_def)
  have mk: "os_makedirs blank_driver
      (case cfg_output_dir sample_config of Some dir \<Rightarrow> dir | None \<Rightarrow> ustr ''./job_details'')
      (init ()) =
      (Inr (), \<lparr>world = (), trace = [EvMakedirs (ustr ''./job_details'') (Inr ())],
        playwright = False, browser = False\<rparr>)"
    unfolding cfg(3) by (rule blank_makedirs)
  from login_outcome [of blank_driver "init ()"]
  have part3: "\<forall>(config :: config) links w s0 s1 s2.
      cfg_job_links config = Some links \<and> links \<noteq> [] \<and>
      os_makedirs blank_driver (case cfg_output_dir config of
                       Some dir \<Rightarrow> dir | None \<Rightarrow> ustr ''./job_details'') (init w) = (Inr (), s0) \<and>
      start blank_driver s0 = (Inr (), s1) \<and>
      ensure_logged_in blank_driver s1 = (Inr False, s2) \<longrightarrow>
        main (Some config) blank_driver w = close blank_driver s2 \<and>
        (\<exists>login closing.
           trace (snd (main (Some config) blank_driver w)) = trace s1 @ login @ closing \<and>
           list_all login_event login \<and> closing \<noteq> [] \<and> list_all is_close closing)"
    by (elim conjE)
  have d: "main (Some sample_config) blank_driver () =
      close blank_driver (snd (ensure_logged_in blank_driver ?s1))"
    using part3 cfg(1,2) mk blank_start lg by blast
  have b: "fst (ensure_logged_in job_driver (init ())) = Inr True"
    by (simp add: job_driver_login)
  show ?thesis using a b late_driver_login d by simp
qed

section \<open>Sample runs\<close>

lemma sample_text_values:
  "sample_text (Suc 0) = Some (ustr '' Engineer '')"
  "sample_text 1 = Some (ustr '' Engineer '')"
  "sample_text 10 = Some (12288 # ustr ''Python '')" "sample_text 11 = Some []"
  "sample_text 12 = Some (ustr ''   '')" "sample_text 13 = None"
  "sample_text 14 = Some (ustr ''Python'')"
  by (simp_all add: sample_text_def)

lemma sample_nonempty:
  "ustr '' Engineer '' \<noteq> []" "ustr ''Python'' \<noteq> []" "ustr ''   '' \<noteq> []"
  "ustr ''Engineer'' \<noteq> []"
  by (simp_all add: ustr_def)

lemma lower_json: "lower ''json'' = ''json''"
  by (simp add: lower_def)

lemmas run_defs = main_def main_from_def init_def sample_config_def Let_def io_bind_def
  io_return_def os_makedirs_def start_def close_def act_def ensure_logged_in_def page_goto_def
  asyncio_sleep_def login_indicators_def page_query_selector_def job_driver_def
  blank_driver_def extract_job_details_def try_except_Exception_def extract_body_def
  extract_handler_def page_screenshot_def try_except_def page_wait_for_selector_def
  extract_text_def text_content_def sample_text_values sample_nonempty sample_strips strip_Nil
  datetime_now_def extract_tags_def page_query_selector_all_def tell_def save_results_def
  lower_json write_file_def

lemma full_disk_run:
  "fst (main (Some sample_config) full_disk_driver ()) =
     Inl (Error (ustr ''No space left on device''))"
  "browser (snd (main (Some sample_config) full_disk_driver ()))"
  "list_all quiet (trace (snd (main (Some sample_config) full_disk_driver ())))"
  by (simp_all add: run_defs full_disk_driver_def)

lemma full_disk_script:
  "fst (script (Some sample_config) full_disk_driver ()) = Inr ()"
  "list_all quiet (trace (snd (script (Some sample_config) full_disk_driver ())))"
  by (simp_all add: script_def run_defs full_disk_driver_def)

lemma job_run:
  "fst (main (Some sample_config) job_driver ()) = Inr ()"
  "browser (snd (main (Some sample_config) job_driver ()))"
  "drop 36 (trace (snd (main (Some sample_config) job_driver ()))) =
     [EvWrite (ustr ''./job_details'') (ustr ''job_details_20240501_100000.json'')
        (JsonFile [sample_job]) (Inr ()),
      EvReport (Saved (ustr ''./job_details'') (ustr ''job_details_20240501_100000.json'')),
      EvReport (Summary 1 0), EvCloseBrowser (Inr ()), EvStopPlaywright (Inr ())]"
  by (simp_all add: run_defs sample_job_def sample_now_def) (simp add: ustr_def)

lemma unreachable_run:
  "main (Some sample_config) unreachable_driver () =
     (Inl (Error (ustr ''net::ERR_NAME_NOT_RESOLVED'')),
      \<lparr>world = (),
       trace = [EvMakedirs (ustr ''./job_details'') (Inr ()), EvStartPlaywright (Inr ()),
                EvMakedirs user_data_dir (Inr ()), EvLaunch (Inr True),
                EvGoto home_url (Inl (Error (ustr ''net::ERR_NAME_NOT_RESOLVED'')))],
       playwright = True, browser = True\<rparr>)"
  by (simp add: run_defs unreachable_driver_def)

theorem close_on_return_witness:
  "fst (main (Some sample_config) job_driver ()) = Inr () \<and>
   browser (snd (main (Some sample_config) job_driver ())) \<and>
   (\<exists>tr. list_all quiet tr \<and>
      trace (snd (main (Some sample_config) job_driver ())) =
        tr @ [EvCloseBrowser (Inr ()), EvStopPlaywright (Inr ())]) \<and>
   fst (main (Some sample_config) full_disk_driver ()) =
     Inl (Error (ustr ''No space left on device'')) \<and>
   browser (snd (main (Some sample_config) full_disk_driver ())) \<and>
   list_all quiet (trace (snd (main (Some sample_config) full_disk_driver ())))"
proof -
  have p: "main (Some sample_config) job_driver () =
      (Inr (), snd (main (Some sample_config) job_driver ()))"
    using job_run(1) by (simp add: prod_eq_iff)
  from close_on_return [OF p job_run(2)]
  have "\<exists>tr. list_all quiet tr \<and>
      trace (snd (main (Some sample_config) job_driver ())) =
        tr @ [EvCloseBrowser (Inr ()), EvStopPlaywright (Inr ())]"
    by blast
  then show ?thesis using job_run(1,2) full_disk_run by blast
qed

text \<open>
  C3 as stated fails. With a full disk the session is started, the targets are
  extracted and the write of the output file raises: \<open>main\<close> raises that error and
  the trace holds no call of \<open>close\<close>, nor does the script's handler make one. The same
  happens when the home page cannot be reached.
\<close>

theorem close_skipped_counterexample:
  "fst (main (Some sample_config) full_disk_driver ()) =
     Inl (Error (ustr ''No space left on device'')) \<and>
   browser (snd (main (Some sample_config) full_disk_driver ())) \<and>
   \<not> list_ex is_close (trace (snd (main (Some sample_config) full_disk_driver ()))) \<and>
   fst (script (Some sample_config) full_disk_driver ()) = Inr () \<and>
   \<not> list_ex is_close (trace (snd (script (Some sample_config) full_disk_driver ()))) \<and>
   main (Some sample_config) unreachable_driver () =
     (Inl (Error (ustr ''net::ERR_NAME_NOT_RESOLVED'')),
      \<lparr>world = (),
       trace = [EvMakedirs (ustr ''./job_details'') (Inr ()), EvStartPlaywright (Inr ()),
                EvMakedirs user_data_dir (Inr ()), EvLaunch (Inr True),
                EvGoto home_url (Inl (Error (ustr ''net::ERR_NAME_NOT_RESOLVED'')))],
       playwright = True, browser = True\<rparr>)"
proof -
  have q: "\<And>tr. list_all quiet tr \<Longrightarrow> \<not> list_ex is_close tr"
    by (simp add: list_all_iff list_ex_iff)
  show ?thesis
    using full_disk_run(1,2) q [OF full_disk_run(3)] full_disk_script(1)
      q [OF full_disk_script(2)] unreachable_run
    by blast
qed

lemma lower_csv: "lower ''CSV'' = ''csv''"
  by code_simp

lemma csv_run:
  "fst (main (Some csv_config) job_driver ()) = Inr ()"
  "drop 36 (trace (snd (main (Some csv_config) job_driver ()))) =
     [EvWrite (ustr ''./job_details'') (ustr ''job_details_20240501_100000.csv'')
        (CsvFile
           [''city'', ''company'', ''company_size'', ''company_type'', ''education'',
            ''experience'', ''extracted_at'', ''job_description'', ''salary'', ''tags'',
            ''title'', ''url'']
           [[Str (ustr ''Engineer''), Str (ustr ''Engineer''), Str (ustr ''Engineer''),
             Str (ustr ''Engineer''), Str (ustr ''Engineer''), Str (ustr ''Engineer''),
             Str (ustr ''2024-05-01T10:00:00''), Str (ustr ''Engineer''),
             Str (ustr ''Engineer''), Tags [ustr ''Python'', ustr ''Python''],
             Str (ustr ''Engineer''), Str sample_url]])
        (Inr ()),
      EvReport (Saved (ustr ''./job_details'') (ustr ''job_details_20240501_100000.csv'')),
      EvReport (Summary 1 0), EvCloseBrowser (Inr ()), EvStopPlaywright (Inr ())]"
  by (simp_all add: run_defs csv_config_def lower_csv csv_export_def fieldnames_sort
      writerow_def sample_now_def) (simp add: ustr_def)

theorem csv_export_table_witness:
  "csv_export [failed_job, blank_job] =
     Inr (CsvFile
       [''city'', ''company'', ''company_size'', ''company_type'', ''education'', ''error'',
        ''experience'', ''extracted_at'', ''job_description'', ''salary'', ''title'', ''url'']
       [[Str [], Str [], Str [], Str [], Str [], Str (ustr ''navigation failed''), Str [],
         Str (ustr ''2024-05-01T10:00:00''), Str [], Str [], Str [], Str sample_url],
        [Str [], Str [], Str [], Str [], Str [], Str [], Str [],
         Str (ustr ''2024-05-01T10:00:00''), Str [], Str [], Str [], Str sample_url]]) \<and>
   save_results blank_driver (ustr ''out'') ''csv'' (ustr ''t'') [failed_job, blank_job] (init ()) =
     (Inr (),
      \<lparr>world = (),
       trace =
         [EvWrite (ustr ''out'') (ustr ''job_details_'' @ ustr ''t'' @ ustr ''.csv'')
            (CsvFile
              [''city'', ''company'', ''company_size'', ''company_type'', ''education'',
               ''error'', ''experience'', ''extracted_at'', ''job_description'', ''salary'',
               ''title'', ''url'']
              [[Str [], Str [], Str [], Str [], Str [], Str (ustr ''navigation failed''),
                Str [], Str (ustr ''2024-05-01T10:00:00''), Str [], Str [], Str [],
                Str sample_url],
               [Str [], Str [], Str [], Str [], Str [], Str [], Str [],
                Str (ustr ''2024-05-01T10:00:00''), Str [], Str [], Str [], Str sample_url]])
            (Inr ()),
          EvReport (Saved (ustr ''out'') (ustr ''job_details_'' @ ustr ''t'' @ ustr ''.csv''))],
       playwright = False, browser = False\<rparr>) \<and>
   fst (main (Some csv_config) job_driver ()) = Inr () \<and>
   drop 36 (trace (snd (main (Some csv_config) job_driver ()))) =
     [EvWrite (ustr ''./job_details'') (ustr ''job_details_20240501_100000.csv'')
        (CsvFile
           [''city'', ''company'', ''company_size'', ''company_type'', ''education'',
            ''experience'', ''extracted_at'', ''job_description'', ''salary'', ''tags'',
            ''title'', ''url'']
           [[Str (ustr ''Engineer''), Str (ustr ''Engineer''), Str (ustr ''Engineer''),
             Str (ustr ''Engineer''), Str (ustr ''Engineer''), Str (ustr ''Engineer''),
             Str (ustr ''2024-05-01T10:00:00''), Str (ustr ''Engineer''),
             Str (ustr ''Engineer''), Tags [ustr ''Python'', ustr ''Python''],
             Str (ustr ''Engineer''), Str sample_url]])
        (Inr ()),
      EvReport (Saved (ustr ''./job_details'') (ustr ''job_details_20240501_100000.csv'')),
      EvReport (Summary 1 0), EvCloseBrowser (Inr ()), EvStopPlaywright (Inr ())]"
proof -
  let ?h = "[''city'', ''company'', ''company_size'', ''company_type'', ''education'', ''error'',
       ''experience'', ''extracted_at'', ''job_description'', ''salary'', ''title'', ''url'']"
  let ?r = "[[Str [], Str [], Str [], Str [], Str [], Str (ustr ''navigation failed''), Str [],
        Str (ustr ''2024-05-01T10:00:00''), Str [], Str [], Str [], Str sample_url],
       [Str [], Str [], Str [], Str [], Str [], Str [], Str [],
        Str (ustr ''2024-05-01T10:00:00''), Str [], Str [], Str [], Str sample_url]]"
  from csv_export_table [of "[failed_job, blank_job]" blank_driver "ustr ''out''" "ustr ''t''"]
  obtain header rows where
    e: "csv_export [failed_job, blank_job] = Inr (CsvFile header rows)" and
    h: "header = sorted_list_of_set (\<Union>job\<in>set [failed_job, blank_job]. fst ` set job)" and
    r: "rows = map (\<lambda>job. map (\<lambda>k. case map_of job k of Some v \<Rightarrow> v | None \<Rightarrow> Str []) header)
              [failed_job, blank_job]" and
    w: "\<forall>s. save_results blank_driver (ustr ''out'') ''csv'' (ustr ''t'') [failed_job, blank_job] s =
        (case drv_write blank_driver (ustr ''out'') (ustr ''job_details_'' @ ustr ''t'' @ ustr ''.csv'')
                (CsvFile header rows) (world s) of
           (Inl e, w') \<Rightarrow>
             (Inl e,
              s\<lparr>world := w',
                trace := trace s @
                  [EvWrite (ustr ''out'') (ustr ''job_details_'' @ ustr ''t'' @ ustr ''.csv'')
                     (CsvFile header rows) (Inl e)]\<rparr>)
         | (Inr u, w') \<Rightarrow>
             (Inr (),
              s\<lparr>world := w',
                trace := trace s @
                  [EvWrite (ustr ''out'') (ustr ''job_details_'' @ ustr ''t'' @ ustr ''.csv'')
                     (CsvFile header rows) (Inr u),
                   EvReport (Saved (ustr ''out'')
                     (ustr ''job_details_'' @ ustr ''t'' @ ustr ''.csv''))]\<rparr>))"
    by blast
  have h': "header = ?h"
    using h sample_fieldnames by (simp only: fieldnames_set)
  have r': "rows = ?r"
    unfolding r h' by (simp add: failed_job_def blank_job_def)
  have a: "csv_export [failed_job, blank_job] = Inr (CsvFile ?h ?r)"
    using e h' r' by simp
  have b: "save_results blank_driver (ustr ''out'') ''csv'' (ustr ''t'') [failed_job, blank_job]
      (init ()) =
     (Inr (),
      \<lparr>world = (),
       trace =
         [EvWrite (ustr ''out'') (ustr ''job_details_'' @ ustr ''t'' @ ustr ''.csv'')
            (CsvFile ?h ?r) (Inr ()),
          EvReport (Saved (ustr ''out'') (ustr ''job_details_'' @ ustr ''t'' @ ustr ''.csv''))],
       playwright = False, browser = False\<rparr>)"
    using w [rule_format, of "init ()"] unfolding h' r'
    by (simp add: blank_driver_def init_def)
  show ?thesis
    using a b csv_run by blast
qed

section \<open>The extraction loop\<close>

lemma extract_job_details_url:
  assumes "extract_job_details d job_url s = (Inr job, s')"
  shows "map_of job ''url'' = Some (Str job_url)"
  using assms unfolding extract_job_details_def
proof (cases rule: try_except_Exception_InrE)
  case 1
  then show ?thesis by (rule extract_body_record(3))
next
  case (2 msg s1)
  from extract_handler_record [OF 2(2)] show ?thesis by auto
qed

lemma crawl_loop_records:
  assumes "crawl_loop d urls acc s = (Inr all_job_details, s')"
  shows "length all_job_details = length acc + length urls \<and>
         take (length acc) all_job_details = acc \<and>
         map (\<lambda>job. map_of job ''url'') (drop (length acc) all_job_details) =
           map (\<lambda>url. Some (Str url)) urls"
  using assms
proof (induction urls arbitrary: acc s)
  case Nil
  then show ?case by simp
next
  case (Cons job_url rest)
  from Cons.prems obtain job_details s1 s2 where
    e: "extract_job_details d job_url s = (Inr job_details, s1)" and
    r: "crawl_loop d rest (acc @ [job_details]) s2 = (Inr all_job_details, s')"
    by (auto split: prod.splits sum.splits)
  note u = extract_job_details_url [OF e]
  from Cons.IH [OF r] have
    l: "length all_job_details = length acc + 1 + length rest" and
    t: "take (length acc + 1) all_job_details = acc @ [job_details]" and
    m: "map (\<lambda>job. map_of job ''url'') (drop (length acc + 1) all_job_details) =
           map (\<lambda>url. Some (Str url)) rest"
    by simp_all
  from t have t1: "take (length acc) all_job_details = acc"
    by (metis append_eq_conv_conj length_append_singleton take_Suc_conv_app_nth take_all_iff
        Suc_eq_plus1 butlast_snoc butlast_take diff_add_inverse2 le_add1 l)
  from t l have n: "all_job_details ! length acc = job_details"
    by (metis Suc_eq_plus1 lessI nth_append_length nth_take)
  have d: "drop (length acc) all_job_details =
      job_details # drop (length acc + 1) all_job_details"
    using l n by (metis Cons_nth_drop_Suc Suc_eq_plus1 add.assoc less_add_Suc1 add.commute)
  show ?case using l t1 m u by (simp add: d)
qed

lemma io_bind_InlE:
  assumes "io_bind m f s = (Inl e, s')"
  obtains "m s = (Inl e, s')" | a s1 where "m s = (Inr a, s1)" and "f a s1 = (Inl e, s')"
  using assms by (auto simp: io_bind_def split: prod.splits sum.splits)

lemma extract_text_no_raise: "extract_text d selector s \<noteq> (Inl e, s')"
  using extract_text_returns [of d selector s] by auto

lemma extract_tags_no_raise: "extract_tags d s \<noteq> (Inl e, s')"
  using extract_tags_returns [of d s] by auto

lemma datetime_now_no_raise: "datetime_now d s \<noteq> (Inl e, s')"
  by (auto simp: datetime_now_def split: prod.splits)

lemma wait_no_raise:
  "try_except (page_wait_for_selector d sel) (\<lambda>e. io_return ()) s \<noteq> (Inl e, s')"
  by (auto simp: try_except_def io_return_def split: prod.splits sum.splits)

lemma extract_body_raise_source:
  assumes "extract_body d job_url s = (Inl e, s')"
  shows "(\<exists>w. fst (drv_goto d job_url w) = Inl e) \<or> (\<exists>w. fst (drv_sleep d 3 w) = Inl e)"
  using assms unfolding extract_body_def
proof (elim io_bind_InlE)
  assume "page_goto d job_url s = (Inl e, s')"
  then have "fst (drv_goto d job_url (world s)) = Inl e"
    by (auto simp: page_goto_def act_def split: prod.splits)
  then show ?thesis by blast
next
  fix s1 assume "asyncio_sleep d 3 s1 = (Inl e, s')"
  then have "fst (drv_sleep d 3 (world s1)) = Inl e"
    by (auto simp: asyncio_sleep_def act_def split: prod.splits)
  then show ?thesis by blast
qed (auto simp: extract_text_no_raise extract_tags_no_raise datetime_now_no_raise wait_no_raise
      io_return_def Let_def)

lemma extract_job_details_returns:
  assumes goto: "\<forall>url w. fst (drv_goto d url w) \<noteq> Inl KeyboardInterrupt \<and>
                           fst (drv_goto d url w) \<noteq> Inl Cancelled"
      and sleep: "\<forall>n w. fst (drv_sleep d n w) = Inr ()"
      and shot: "\<forall>secs w. fst (drv_screenshot d secs w) = Inr ()"
  shows "\<exists>job s'. extract_job_details d job_url s = (Inr job, s')"
proof -
  obtain r s1 where b: "extract_body d job_url s = (r, s1)" by (cases "extract_body d job_url s")
  show ?thesis
  proof (cases r)
    case (Inr job)
    with b show ?thesis by (simp add: extract_job_details_def try_except_Exception_def)
  next
    case (Inl e)
    with b extract_body_raise_source [of d job_url s e s1] goto sleep
    obtain msg where "e = Error msg" by (cases e) auto
    with b Inl extract_failure_recorded [OF _ shot, of job_url s msg s1] show ?thesis by blast
  qed
qed

lemma crawl_loop_returns:
  assumes goto: "\<forall>url w. fst (drv_goto d url w) \<noteq> Inl KeyboardInterrupt \<and>
                           fst (drv_goto d url w) \<noteq> Inl Cancelled"
      and sleep: "\<forall>n w. fst (drv_sleep d n w) = Inr ()"
      and shot: "\<forall>secs w. fst (drv_screenshot d secs w) = Inr ()"
  shows "\<exists>all_job_details s'. crawl_loop d urls acc s = (Inr all_job_details, s')"
proof (induction urls arbitrary: acc s)
  case Nil
  show ?case by simp
next
  case (Cons job_url rest)
  from extract_job_details_returns [OF goto sleep shot] obtain job s1 where
    e: "extract_job_details d job_url s = (Inr job, s1)" by blast
  have sl: "\<And>s. \<exists>s'. asyncio_sleep d 2 s = (Inr (), s')"
    using sleep by (auto simp: asyncio_sleep_def act_def split: prod.splits) (metis fst_conv)
  have "\<exists>s2. io_bind (case map_of job ''title'' of
                           Some v \<Rightarrow> tell (ShowTitle v) | None \<Rightarrow> io_return ()) (\<lambda>_.
                io_bind (case map_of job ''error'' of
                           Some v \<Rightarrow> tell (ShowError v) | None \<Rightarrow> io_return ()) (\<lambda>_.
                  asyncio_sleep d 2)) s1 = (Inr (), s2)"
    using sl by (auto simp: io_bind_def tell_def io_return_def split: option.splits)
  then obtain s2 where p: "io_bind (case map_of job ''title'' of
                           Some v \<Rightarrow> tell (ShowTitle v) | None \<Rightarrow> io_return ()) (\<lambda>_.
                io_bind (case map_of job ''error'' of
                           Some v \<Rightarrow> tell (ShowError v) | None \<Rightarrow> io_return ()) (\<lambda>_.
                  asyncio_sleep d 2)) s1 = (Inr (), s2)" by blast
  from Cons.IH [of "acc @ [job]" s2] show ?case by (simp add: e p)
qed

text \<open>
  The loop where it works: when no navigation is interrupted and neither a sleep nor
  the screenshot raises, it returns one record per target, in the order of the targets,
  whatever else the driver does.
\<close>

lemma crawl_loop_complete:
  assumes goto: "\<forall>url w. fst (drv_goto d url w) \<noteq> Inl KeyboardInterrupt \<and>
                           fst (drv_goto d url w) \<noteq> Inl Cancelled"
      and sleep: "\<forall>n w. fst (drv_sleep d n w) = Inr ()"
      and shot: "\<forall>secs w. fst (drv_screenshot d secs w) = Inr ()"
  shows "\<exists>all_job_details s'.
           crawl_loop d urls [] s = (Inr all_job_details, s') \<and>
           length all_job_details = length urls \<and>
           map (\<lambda>job. map_of job ''url'') all_job_details = map (\<lambda>url. Some (Str url)) urls"
proof -
  from crawl_loop_returns [OF goto sleep shot] obtain all_job_details s' where
    r: "crawl_loop d urls [] s = (Inr all_job_details, s')" by blast
  from crawl_loop_records [OF r] show ?thesis using r by simp
qed

text \<open>
  C4. The claim fails on a target whose extraction raises, which the unguarded
  screenshot makes possible. With two targets in a session whose job pages cannot be
  loaded and whose screenshot raises, the run stops at the first target: \<open>main\<close>
  raises the error of the screenshot, the second target is never visited, and nothing
  is written, summarised or closed.
\<close>

theorem run_aborts_on_screenshot_error:
  "main (Some (sample_config\<lparr>cfg_job_links := Some [sample_url, sample_url]\<rparr>)) closed_driver () =
     (Inl (Error (ustr ''screenshot failed'')),
      \<lparr>world = (),
       trace = [EvMakedirs (ustr ''./job_details'') (Inr ()), EvStartPlaywright (Inr ()),
                EvMakedirs user_data_dir (Inr ()), EvLaunch (Inr True),
                EvGoto home_url (Inr ()), EvSleep 3 (Inr ()),
                EvQuery (hd login_indicators) (Inr (Some 1)),
                EvGoto sample_url (Inl (Error (ustr ''navigation failed''))),
                EvScreenshot 1714557600 (Inl (Error (ustr ''screenshot failed'')))],
       playwright = True, browser = True\<rparr>)"
  by (simp add: run_defs closed_driver_def offline_driver_def sample_url_def home_url_def
      sample_now_def ustr_def)

end
